theory Spec2Isabelle
  imports Main
begin

section \<open>JavaScript values\<close>

text \<open>
  The client and the device exchange parsed JSON bodies and JavaScript primitives.
  \<open>JObj\<close> lists the own properties of an object in enumeration order (what
  \<^verbatim>\<open>Object.values\<close> walks). A string is the list of its code units, of which the
  model has those below 256. A number is a double: \<open>JNum n\<close> is the double whose
  value is the integer \<open>n\<close>, \<open>JInf\<close> is \<^verbatim>\<open>Infinity\<close> (what \<^verbatim>\<open>parseInt\<close> gives for a
  run of digits beyond the range of a double). Fractions, negative infinity and
  \<^verbatim>\<open>NaN\<close> are outside the model (a JSON body never holds \<^verbatim>\<open>NaN\<close>).
\<close>

datatype jsval =
    JUndefined
  | JNull
  | JBool bool
  | JNum int
  | JInf
  | JStr string
  | JArr "jsval list"
  | JObj "(string \<times> jsval) list"

text \<open>Truthiness, as \<^verbatim>\<open>if (v)\<close>, \<^verbatim>\<open>!v\<close> and \<^verbatim>\<open>a || b\<close> read it.\<close>

fun truthy :: "jsval \<Rightarrow> bool" where
  "truthy JUndefined = False"
| "truthy JNull = False"
| "truthy (JBool b) = b"
| "truthy (JNum n) = (n \<noteq> 0)"
| "truthy JInf = True"
| "truthy (JStr s) = (s \<noteq> [])"
| "truthy (JArr xs) = True"
| "truthy (JObj kvs) = True"

definition js_or :: "jsval \<Rightarrow> jsval \<Rightarrow> jsval" where
  "js_or a b = (if truthy a then a else b)"

definition nullish :: "jsval \<Rightarrow> bool" where
  "nullish v = (v = JUndefined \<or> v = JNull)"

text \<open>\<^verbatim>\<open>typeof v === 'number'\<close>.\<close>

fun is_number :: "jsval \<Rightarrow> bool" where
  "is_number (JNum n) = True"
| "is_number JInf = True"
| "is_number v = False"

section \<open>The errors the code raises\<close>

text \<open>
  Every \<^verbatim>\<open>throw new Error(...)\<close> of the source is one constructor, named after the
  kind of failure it stands for:
  \<^item> \<open>HttpError\<close>: \<^verbatim>\<open>HTTP ${status}: ${statusText}\<close> (makeRequest);
  \<^item> \<open>AuthError\<close>: \<^verbatim>\<open>Unauthorized after retry\<close> (makeRequest);
  \<^item> \<open>LoginError\<close>: \<^verbatim>\<open>Login failed: ...\<close> and
    \<^verbatim>\<open>Login succeeded but no User ID returned.\<close> (login), with the message;
  \<^item> \<open>NotFoundError\<close>: \<^verbatim>\<open>Product not found in cart\<close> (device);
  \<^item> \<open>ArgumentError\<close>: \<^verbatim>\<open>No product ID provided\<close> (device);
  \<^item> \<open>NetworkError\<close>: \<^verbatim>\<open>fetch\<close> rejects; \<open>JsonError\<close>: \<^verbatim>\<open>response.json()\<close>
    rejects; \<open>TypeError\<close>: a property read on \<^verbatim>\<open>null\<close> or \<^verbatim>\<open>undefined\<close>, or a call
    of something that is not a function; \<open>HostError\<close>: the host rejects the promise
    of a capability write that is awaited without a \<^verbatim>\<open>catch\<close>.
\<close>

datatype error =
    HttpError nat string
  | AuthError
  | LoginError string
  | NotFoundError
  | ArgumentError
  | NetworkError
  | JsonError
  | TypeError
  | HostError

section \<open>Property reads and conversions\<close>

fun lookup :: "(string \<times> jsval) list \<Rightarrow> string \<Rightarrow> jsval" where
  "lookup [] k = JUndefined"
| "lookup ((k', v) # kvs) k = (if k' = k then v else lookup kvs k)"

text \<open>\<^verbatim>\<open>v.k\<close>: a \<^verbatim>\<open>TypeError\<close> on \<^verbatim>\<open>null\<close> and \<^verbatim>\<open>undefined\<close>; \<^verbatim>\<open>length\<close> of arrays
  and strings; \<^verbatim>\<open>undefined\<close> for every other property of a primitive or an array.\<close>

fun js_get :: "jsval \<Rightarrow> string \<Rightarrow> error + jsval" where
  "js_get JUndefined k = Inl TypeError"
| "js_get JNull k = Inl TypeError"
| "js_get (JObj kvs) k = Inr (lookup kvs k)"
| "js_get (JArr xs) k = Inr (if k = ''length'' then JNum (int (length xs)) else JUndefined)"
| "js_get (JStr s) k = Inr (if k = ''length'' then JNum (int (length s)) else JUndefined)"
| "js_get (JBool b) k = Inr JUndefined"
| "js_get (JNum n) k = Inr JUndefined"
| "js_get JInf k = Inr JUndefined"

text \<open>\<^verbatim>\<open>v?.k\<close>: \<^verbatim>\<open>undefined\<close> instead of the \<^verbatim>\<open>TypeError\<close>.\<close>

definition js_opt_get :: "jsval \<Rightarrow> string \<Rightarrow> jsval" where
  "js_opt_get v k = (case js_get v k of Inl e \<Rightarrow> JUndefined | Inr x \<Rightarrow> x)"

text \<open>\<^verbatim>\<open>v[0]\<close> and \<^verbatim>\<open>v?.[0]\<close>.\<close>

fun js_first :: "jsval \<Rightarrow> error + jsval" where
  "js_first JUndefined = Inl TypeError"
| "js_first JNull = Inl TypeError"
| "js_first (JArr xs) = Inr (case xs of [] \<Rightarrow> JUndefined | x # _ \<Rightarrow> x)"
| "js_first (JStr s) = Inr (case s of [] \<Rightarrow> JUndefined | c # _ \<Rightarrow> JStr [c])"
| "js_first (JObj kvs) = Inr (lookup kvs ''0'')"
| "js_first (JBool b) = Inr JUndefined"
| "js_first (JNum n) = Inr JUndefined"
| "js_first JInf = Inr JUndefined"

definition js_opt_first :: "jsval \<Rightarrow> jsval" where
  "js_opt_first v = (case js_first v of Inl e \<Rightarrow> JUndefined | Inr x \<Rightarrow> x)"

text \<open>Decimal digits, and the number a run of digits writes.\<close>

definition digit_chars :: "char list" where
  "digit_chars = ''0123456789''"

definition is_digit :: "char \<Rightarrow> bool" where
  "is_digit c = (c \<in> set digit_chars)"

fun index_of :: "'a \<Rightarrow> 'a list \<Rightarrow> nat" where
  "index_of x [] = 0"
| "index_of x (y # ys) = (if x = y then 0 else Suc (index_of x ys))"

definition digit_val :: "char \<Rightarrow> nat" where
  "digit_val c = index_of c digit_chars"

definition digits_value :: "string \<Rightarrow> int" where
  "digits_value ds = foldl (\<lambda>acc c. 10 * acc + int (digit_val c)) 0 ds"

function show_digits :: "int \<Rightarrow> string" where
  "show_digits n =
     (if n < 10 then [digit_chars ! nat n]
      else show_digits (n div 10) @ [digit_chars ! nat (n mod 10)])"
  by pat_completeness auto
termination
  by (relation "measure nat") auto

declare show_digits.simps [simp del]

text \<open>
  The double nearest to a natural number: the number itself below \<open>2 ^ 53\<close>; above,
  the 53 leading bits, rounded to nearest with ties to the even mantissa; \<open>None\<close>
  (\<^verbatim>\<open>Infinity\<close>) when that reaches \<open>2 ^ 1024\<close>.
\<close>

function bit_length :: "int \<Rightarrow> nat" where
  "bit_length n = (if n \<le> 0 then 0 else Suc (bit_length (n div 2)))"
  by pat_completeness auto
termination
  by (relation "measure nat") auto

declare bit_length.simps [simp del]

definition to_double :: "int \<Rightarrow> int option" where
  "to_double n =
     (if bit_length n \<le> 53 then Some n
      else (let u = 2 ^ (bit_length n - 53);
                q = n div u;
                r = n mod u;
                m = (if u < 2 * r \<or> (2 * r = u \<and> odd q) then q + 1 else q)
            in if 2 ^ 1024 \<le> m * u then None else Some (m * u)))"

text \<open>\<^verbatim>\<open>parseInt(s, 10)\<close> on a non-empty run of digits: the double nearest to the number
  the digits write.\<close>

definition parseInt :: "string \<Rightarrow> jsval" where
  "parseInt ds = (case to_double (digits_value ds) of Some n \<Rightarrow> JNum n | None \<Rightarrow> JInf)"

text \<open>
  \<^verbatim>\<open>String(x)\<close> of a double with a natural value. Below \<open>2 ^ 53\<close> it prints the digits
  of the number. Above, it prints the decimal with the fewest significant digits
  that still reads back as the same double, the nearest to the double among those
  (an even last digit on a tie): \<open>nearest_decimal x u\<close> looks among the multiples of
  the unit \<open>u\<close>, \<open>shortest_decimal\<close> takes the largest unit that has one. A decimal of
  more than 21 digits is printed in exponent form.
\<close>

definition nearest_decimal :: "int \<Rightarrow> int \<Rightarrow> int option" where
  "nearest_decimal x u =
     (let lo = (x div u) * u;
          hi = lo + u;
          low_ok = (to_double lo = Some x);
          high_ok = (to_double hi = Some x)
      in if low_ok \<and> high_ok
         then Some (if x - lo < hi - x then lo
                    else if hi - x < x - lo then hi
                    else if even (x div u) then lo else hi)
         else if low_ok then Some lo
         else if high_ok then Some hi
         else None)"

fun first_some :: "('a \<Rightarrow> 'b option) \<Rightarrow> 'a list \<Rightarrow> 'b option" where
  "first_some f [] = None"
| "first_some f (x # xs) = (case f x of Some y \<Rightarrow> Some y | None \<Rightarrow> first_some f xs)"

definition shortest_decimal :: "int \<Rightarrow> int" where
  "shortest_decimal x =
     (case first_some (nearest_decimal x) (map (\<lambda>j. 10 ^ j) (rev [0..<length (show_digits x)])) of
        Some c \<Rightarrow> c
      | None \<Rightarrow> x)"

definition number_string :: "int \<Rightarrow> string" where
  "number_string x =
     (if bit_length x \<le> 53 then show_digits x
      else (let ds = show_digits (shortest_decimal x);
                n = length ds;
                s = rev (dropWhile (\<lambda>c. c = CHR ''0'') (rev ds))
            in if n \<le> 21 then ds
               else (if length s = 1 then s else hd s # CHR ''.'' # tl s)
                      @ ''e+'' @ show_digits (int n - 1)))"

text \<open>\<^verbatim>\<open>String(n)\<close> of a number with an integer value; a value that is no double is
  read as the double nearest to it.\<close>

definition show_int :: "int \<Rightarrow> string" where
  "show_int i =
     (if i < 0 then [CHR ''-''] else []) @
     (case to_double \<bar>i\<bar> of
        Some x \<Rightarrow> number_string x
      | None \<Rightarrow> ''Infinity'')"

fun join_with :: "string \<Rightarrow> string list \<Rightarrow> string" where
  "join_with sep [] = []"
| "join_with sep [s] = s"
| "join_with sep (s # t # ss) = s @ sep @ join_with sep (t # ss)"

text \<open>\<^verbatim>\<open>String(v)\<close>, which is also what a template literal \<^verbatim>\<open>`${v}`\<close> inserts. An array
  joins its elements with commas, \<^verbatim>\<open>null\<close> and \<^verbatim>\<open>undefined\<close> elements as the empty
  string.\<close>

fun js_String :: "jsval \<Rightarrow> string" where
  "js_String JUndefined = ''undefined''"
| "js_String JNull = ''null''"
| "js_String (JBool b) = (if b then ''true'' else ''false'')"
| "js_String (JNum n) = show_int n"
| "js_String JInf = ''Infinity''"
| "js_String (JStr s) = s"
| "js_String (JArr xs) =
     join_with '','' (map (\<lambda>x. if x = JUndefined \<or> x = JNull then [] else js_String x) xs)"
| "js_String (JObj kvs) = ''[object Object]''"

text \<open>\<^verbatim>\<open>s.toUpperCase()\<close> on the ASCII letters; every other character is kept.\<close>

definition upper_table :: "(char \<times> char) list" where
  "upper_table = zip ''abcdefghijklmnopqrstuvwxyz'' ''ABCDEFGHIJKLMNOPQRSTUVWXYZ''"

definition upper_char :: "char \<Rightarrow> char" where
  "upper_char c = (case map_of upper_table c of Some u \<Rightarrow> u | None \<Rightarrow> c)"

definition toUpperCase :: "string \<Rightarrow> string" where
  "toUpperCase s = map upper_char s"

section \<open>RohlikClient: construction\<close>

text \<open>\<^verbatim>\<open>COUNTRY_URLS\<close>, a plain object keyed by region code.\<close>

definition COUNTRY_URLS :: "(string \<times> string) list" where
  "COUNTRY_URLS =
    [(''CZ'', ''https://www.rohlik.cz''),
     (''DE'', ''https://www.knuspr.de''),
     (''AT'', ''https://www.gurkerl.at''),
     (''HU'', ''https://www.kifli.hu''),
     (''RO'', ''https://www.sezamo.ro'')]"

text \<open>The fields of a client instance. \<open>userId\<close> and \<open>addressId\<close> start as \<^verbatim>\<open>null\<close>.\<close>

record client =
  username :: string
  password :: string
  baseUrl :: string
  sessionCookies :: string
  userId :: jsval
  addressId :: jsval
  lastRequestTime :: int
  minRequestInterval :: int

text \<open>
  \<^verbatim>\<open>constructor({ username, password, country })\<close>. \<open>country\<close> is \<open>None\<close> when the
  property is absent (\<^verbatim>\<open>undefined\<close>) or \<^verbatim>\<open>null\<close>: \<^verbatim>\<open>country?.toUpperCase()\<close> is then
  \<^verbatim>\<open>undefined\<close>, which is no key of \<^verbatim>\<open>COUNTRY_URLS\<close>, and \<^verbatim>\<open>||\<close> falls back to the CZ
  entry. No upper-cased string names an inherited property of the table object, so
  only the five own keys are found.
\<close>

definition country_url :: "string option \<Rightarrow> string option" where
  "country_url country =
     (case country of None \<Rightarrow> None | Some c \<Rightarrow> map_of COUNTRY_URLS (toUpperCase c))"

definition constructor :: "string \<Rightarrow> string \<Rightarrow> string option \<Rightarrow> client" where
  "constructor user pass country =
     \<lparr> username = user,
       password = pass,
       baseUrl = (case country_url country of
                    Some u \<Rightarrow> (if u \<noteq> [] then u else the (map_of COUNTRY_URLS ''CZ''))
                  | None \<Rightarrow> the (map_of COUNTRY_URLS ''CZ'')),
       sessionCookies = [],
       userId = JNull,
       addressId = JNull,
       lastRequestTime = 0,
       minRequestInterval = 100 \<rparr>"

section \<open>RohlikClient: the world a client runs in\<close>

text \<open>
  A client runs against a clock and a network. \<open>clock\<close> is what \<^verbatim>\<open>Date.now()\<close>
  reads, in milliseconds. \<open>ticks\<close> scripts, for each suspension, by how much the
  reading after it is off from what was asked for: the lag of a timer or the latency
  of a request, and a negative entry for a timer that ends early by this clock (the
  timers run on another clock than \<^verbatim>\<open>Date.now()\<close>) or a clock that was set back.
  \<open>net\<close> scripts the outcome of each \<^verbatim>\<open>fetch\<close>, in the order the
  requests are issued; past the end of the script every request is rejected. \<open>trace\<close>
  records the requests sent and the events emitted.
\<close>

datatype fetch_result =
    Rejected
  | Response nat string "string option" "jsval option"

text \<open>\<open>Response status statusText setCookie body\<close>: \<open>setCookie\<close> is
  \<^verbatim>\<open>response.headers.get('set-cookie')\<close> (\<open>None\<close> for \<^verbatim>\<open>null\<close>); \<open>body\<close> is what
  \<^verbatim>\<open>response.json()\<close> resolves to, \<open>None\<close> when it rejects.\<close>

datatype event =
    Request string string "string option"
  | LoginRequest string
  | Emit string jsval

text \<open>\<open>Request verb url cookie\<close> is a \<^verbatim>\<open>fetch\<close> of \<^verbatim>\<open>makeRequest\<close> with the
  \<^verbatim>\<open>Cookie\<close> header it sent; \<open>LoginRequest url\<close> is the raw \<^verbatim>\<open>fetch\<close> of \<^verbatim>\<open>login\<close>;
  \<open>Emit name value\<close> is \<^verbatim>\<open>this.emit(name, value)\<close>.\<close>

record world = client +
  clock :: int
  ticks :: "int list"
  net :: "fetch_result list"
  trace :: "event list"

text \<open>The events an execution from \<open>w\<close> to \<open>w'\<close> added to the trace.\<close>

definition new_events :: "world \<Rightarrow> world \<Rightarrow> event list" where
  "new_events w w' = drop (length (trace w)) (trace w')"

record options =
  method' :: "string option"
  payload :: "string option"

definition no_options :: options where
  "no_options = \<lparr> method' = None, payload = None \<rparr>"

text \<open>\<^verbatim>\<open>options.method || 'GET'\<close>.\<close>

definition method_of :: "options \<Rightarrow> string" where
  "method_of opts =
     (case method' opts of
        None \<Rightarrow> ''GET''
      | Some m \<Rightarrow> (if m \<noteq> [] then m else ''GET''))"

definition pass_time :: "world \<Rightarrow> world" where
  "pass_time w =
     (case ticks w of
        [] \<Rightarrow> w
      | t # ts \<Rightarrow> w\<lparr> clock := clock w + t, ticks := ts \<rparr>)"

text \<open>\<^verbatim>\<open>await new Promise(resolve => setTimeout(resolve, delay))\<close>. Node sets a delay
  above \<open>2147483647\<close> or below \<open>1\<close> to \<open>1\<close>. The reading of the clock when the caller
  resumes is off from the delay by the next entry of \<open>ticks\<close>.\<close>

definition sleep :: "int \<Rightarrow> world \<Rightarrow> world" where
  "sleep delay w =
     pass_time (w\<lparr> clock := clock w + (if delay > 2147483647 \<or> delay < 1 then 1 else delay) \<rparr>)"

definition rateLimit :: "world \<Rightarrow> world" where
  "rateLimit w =
     (let now = clock w;
          timeSinceLastRequest = now - lastRequestTime w;
          w1 = (if timeSinceLastRequest < minRequestInterval w
                then sleep (minRequestInterval w - timeSinceLastRequest) w
                else w)
      in w1\<lparr> lastRequestTime := clock w1 \<rparr>)"

text \<open>
  \<^verbatim>\<open>rateLimit\<close> suspends at most once, at its timer. \<open>rateLimit_delay\<close> is the part
  before the suspension: the delay it asks for, \<open>None\<close> when it does not wait.
  \<open>rateLimit_record\<close> is the part after it: the dispatch time becomes the reading of
  the clock at that moment, which is not compared with the interval again.
\<close>

definition rateLimit_delay :: "world \<Rightarrow> int option" where
  "rateLimit_delay w =
     (let now = clock w;
          timeSinceLastRequest = now - lastRequestTime w
      in if timeSinceLastRequest < minRequestInterval w
         then Some (minRequestInterval w - timeSinceLastRequest)
         else None)"

definition rateLimit_record :: "world \<Rightarrow> world" where
  "rateLimit_record w = w\<lparr> lastRequestTime := clock w \<rparr>"

definition fetch :: "event \<Rightarrow> world \<Rightarrow> fetch_result \<times> world" where
  "fetch ev w =
     (let w1 = pass_time (w\<lparr> trace := trace w @ [ev] \<rparr>)
      in case net w1 of
           [] \<Rightarrow> (Rejected, w1)
         | r # rs \<Rightarrow> (r, w1\<lparr> net := rs \<rparr>))"

text \<open>\<^verbatim>\<open>if (setCookieHeader) this.sessionCookies = setCookieHeader\<close>: the stored header
  is overwritten whole.\<close>

definition capture_cookies :: "string option \<Rightarrow> world \<Rightarrow> world" where
  "capture_cookies setCookieHeader w =
     (case setCookieHeader of
        None \<Rightarrow> w
      | Some c \<Rightarrow> (if c \<noteq> [] then w\<lparr> sessionCookies := c \<rparr> else w))"

section \<open>RohlikClient: login\<close>

text \<open>\<^verbatim>\<open>data.messages?.[0]?.content || data.message || 'Login failed'\<close>, as the template
  literal of the error message prints it.\<close>

definition login_error_message :: "jsval \<Rightarrow> error + string" where
  "login_error_message data =
     (case js_get data ''messages'' of
        Inl e \<Rightarrow> Inl e
      | Inr ms \<Rightarrow>
          (let content = js_opt_get (js_opt_first ms) ''content''
           in if truthy content then Inr (js_String content)
              else (case js_get data ''message'' of
                      Inl e \<Rightarrow> Inl e
                    | Inr m \<Rightarrow> Inr (js_String (js_or m (JStr ''Login failed''))))))"

definition login_path :: string where
  "login_path = ''/services/frontend-service/login''"

definition login :: "world \<Rightarrow> (error + unit) \<times> world" where
  "login w =
     (let w1 = rateLimit w;
          (response, w2) = fetch (LoginRequest (baseUrl w1 @ login_path)) w1
      in case response of
           Rejected \<Rightarrow> (Inl NetworkError, w2)
         | Response status statusText setCookieHeader body \<Rightarrow>
             (let w3 = capture_cookies setCookieHeader w2
              in case body of
                   None \<Rightarrow> (Inl JsonError, w3)
                 | Some data \<Rightarrow>
                     (if \<not> (status = 200 \<or> status = 202)
                      then (case login_error_message data of
                              Inl e \<Rightarrow> (Inl e, w3)
                            | Inr errorMsg \<Rightarrow> (Inl (LoginError (''Login failed: '' @ errorMsg)), w3))
                      else (case js_get data ''data'' of
                              Inl e \<Rightarrow> (Inl e, w3)
                            | Inr d \<Rightarrow>
                                (let w4 = w3\<lparr> userId := js_opt_get (js_opt_get d ''user'') ''id'' \<rparr>;
                                     w5 = w4\<lparr> addressId := js_opt_get (js_opt_get d ''address'') ''id'' \<rparr>
                                 in if \<not> truthy (userId w5)
                                    then (Inl (LoginError ''Login succeeded but no User ID returned.''), w5)
                                    else (Inr (), w5))))))"

section \<open>RohlikClient: the request executor\<close>

fun starts_with :: "string \<Rightarrow> string \<Rightarrow> bool" where
  "starts_with [] s = True"
| "starts_with (p # ps) [] = False"
| "starts_with (p # ps) (c # cs) = (p = c \<and> starts_with ps cs)"

text \<open>\<^verbatim>\<open>s.includes(sub)\<close>.\<close>

fun str_includes :: "string \<Rightarrow> string \<Rightarrow> bool" where
  "str_includes [] sub = (sub = [])"
| "str_includes (c # cs) sub = (starts_with sub (c # cs) \<or> str_includes cs sub)"

definition bags_path :: string where
  "bags_path = ''/api/v1/reusable-bags/user-info''"

text \<open>The part of \<^verbatim>\<open>makeRequest\<close> after a 2xx body was parsed: the \<^verbatim>\<open>reusable_bags\<close>
  event for the bag endpoint, then the body is returned.\<close>

definition emit_bags :: "string \<Rightarrow> jsval \<Rightarrow> world \<Rightarrow> (error + jsval) \<times> world" where
  "emit_bags url jsonData w =
     (if str_includes url bags_path
      then (case js_get jsonData ''data'' of
              Inl e \<Rightarrow> (Inl e, w)
            | Inr d \<Rightarrow>
                (let bagsData = js_or d jsonData;
                     current = js_opt_get bagsData ''current''
                 in if is_number current
                    then (Inr jsonData, w\<lparr> trace := trace w @ [Emit ''reusable_bags'' current] \<rparr>)
                    else (Inr jsonData, w)))
      else (Inr jsonData, w))"

text \<open>
  \<^verbatim>\<open>makeRequest(url, options = {}, isRetry = false)\<close>. The \<^verbatim>\<open>catch\<close> block logs and
  rethrows, so every failure is the result. No caller passes \<^verbatim>\<open>options.headers\<close>.
\<close>

function makeRequest :: "string \<Rightarrow> options \<Rightarrow> bool \<Rightarrow> world \<Rightarrow> (error + jsval) \<times> world" where
  "makeRequest url opts isRetry w =
     (let w1 = rateLimit w;
          cookie = (if sessionCookies w1 \<noteq> [] then Some (sessionCookies w1) else None);
          (response, w2) = fetch (Request (method_of opts) (baseUrl w1 @ url) cookie) w1
      in case response of
           Rejected \<Rightarrow> (Inl NetworkError, w2)
         | Response status statusText setCookieHeader body \<Rightarrow>
             (let w3 = capture_cookies setCookieHeader w2
              in if status = 401 \<or> status = 403
                 then (if \<not> isRetry
                       then (case login w3 of
                               (Inl e, w4) \<Rightarrow> (Inl e, w4)
                             | (Inr u, w4) \<Rightarrow> makeRequest url opts True w4)
                       else (Inl AuthError, w3))
                 else if \<not> (200 \<le> status \<and> status \<le> 299)
                 then (Inl (HttpError status statusText), w3)
                 else (case body of
                         None \<Rightarrow> (Inl JsonError, w3)
                       | Some jsonData \<Rightarrow> emit_bags url jsonData w3)))"
  by pat_completeness auto
termination
  by (relation "measure (\<lambda>(url, opts, isRetry, w). if isRetry then 0 else 1)") auto

declare makeRequest.simps [simp del]

definition logout :: "world \<Rightarrow> (error + unit) \<times> world" where
  "logout w =
     (case makeRequest ''/services/frontend-service/logout''
             \<lparr> method' = Some ''POST'', payload = None \<rparr> False w of
        (Inl e, w1) \<Rightarrow> (Inl e, w1)
      | (Inr j, w1) \<Rightarrow> (Inr (), w1\<lparr> sessionCookies := [] \<rparr>))"

section \<open>RohlikClient: domain operations\<close>

text \<open>The shapes \<^verbatim>\<open>getCartContent\<close> returns. \<open>id'\<close> is the field \<^verbatim>\<open>id\<close> (the product id as
  a string), \<open>cart_item_id\<close> the line id that removal needs.\<close>

record cart_item =
  id' :: string
  cart_item_id :: string
  name :: jsval
  quantity :: jsval
  price :: jsval
  pricePerUnit :: jsval

record cart =
  totalPrice :: jsval
  totalItems :: nat
  items :: "cart_item list"

text \<open>\<^verbatim>\<open>Object.values(v)\<close> of a truthy value.\<close>

fun object_values :: "jsval \<Rightarrow> jsval list" where
  "object_values (JObj kvs) = map snd kvs"
| "object_values (JArr xs) = xs"
| "object_values (JStr s) = map (\<lambda>c. JStr [c]) s"
| "object_values v = []"

text \<open>The callback of \<^verbatim>\<open>.map(item => ...)\<close>: \<^verbatim>\<open>item.productId\<close> raises on a \<^verbatim>\<open>null\<close> item.\<close>

definition to_cart_item :: "jsval \<Rightarrow> error + cart_item" where
  "to_cart_item item =
     (case js_get item ''productId'' of
        Inl e \<Rightarrow> Inl e
      | Inr productId \<Rightarrow>
          Inr \<lparr> id' = js_String productId,
                cart_item_id = js_String (js_opt_get item ''orderFieldId''),
                name = js_opt_get item ''productName'',
                quantity = js_opt_get item ''quantity'',
                price = js_opt_get item ''price'',
                pricePerUnit = js_opt_get item ''pricePerUnit'' \<rparr>)"

fun map_result :: "('a \<Rightarrow> error + 'b) \<Rightarrow> 'a list \<Rightarrow> error + 'b list" where
  "map_result f [] = Inr []"
| "map_result f (x # xs) =
     (case f x of
        Inl e \<Rightarrow> Inl e
      | Inr y \<Rightarrow> (case map_result f xs of Inl e \<Rightarrow> Inl e | Inr ys \<Rightarrow> Inr (y # ys)))"

definition cart_path :: string where
  "cart_path = ''/services/frontend-service/v2/cart''"

definition getCartContent :: "world \<Rightarrow> (error + cart) \<times> world" where
  "getCartContent w =
     (case makeRequest cart_path no_options False w of
        (Inl e, w1) \<Rightarrow> (Inl e, w1)
      | (Inr response, w1) \<Rightarrow>
          (case js_get response ''data'' of
             Inl e \<Rightarrow> (Inl e, w1)
           | Inr d \<Rightarrow>
               (let data = js_or d (JObj []);
                    raw = js_or (js_opt_get data ''items'') (JObj [])
                in case map_result to_cart_item (object_values raw) of
                     Inl e \<Rightarrow> (Inl e, w1)
                   | Inr its \<Rightarrow>
                       (Inr \<lparr> totalPrice = js_or (js_opt_get data ''totalPrice'') (JNum 0),
                              totalItems = length its,
                              items = its \<rparr>, w1))))"

text \<open>\<^verbatim>\<open>removeFromCart(orderFieldId)\<close>: one \<^verbatim>\<open>DELETE\<close> through the executor.\<close>

definition removeFromCart :: "string \<Rightarrow> world \<Rightarrow> (error + bool) \<times> world" where
  "removeFromCart orderFieldId w =
     (case makeRequest (cart_path @ ''?orderFieldId='' @ orderFieldId)
             \<lparr> method' = Some ''DELETE'', payload = None \<rparr> False w of
        (Inl e, w1) \<Rightarrow> (Inl e, w1)
      | (Inr j, w1) \<Rightarrow> (Inr True, w1))"

text \<open>\<^verbatim>\<open>response.data || fallback\<close> after a request, the common shape of the readers.\<close>

definition read_data :: "string \<Rightarrow> (jsval \<Rightarrow> jsval) \<Rightarrow> world \<Rightarrow> (error + jsval) \<times> world" where
  "read_data path fallback w =
     (case makeRequest path no_options False w of
        (Inl e, w1) \<Rightarrow> (Inl e, w1)
      | (Inr response, w1) \<Rightarrow>
          (case js_get response ''data'' of
             Inl e \<Rightarrow> (Inl e, w1)
           | Inr d \<Rightarrow> (Inr (js_or d (fallback response)), w1)))"

definition getUpcomingOrders :: "world \<Rightarrow> (error + jsval) \<times> world" where
  "getUpcomingOrders w = read_data ''/api/v3/orders/upcoming'' (\<lambda>response. JArr []) w"

definition delivery_announcements_path :: string where
  "delivery_announcements_path = ''/services/frontend-service/announcements/delivery''"

definition getDeliveryAnnouncements :: "world \<Rightarrow> (error + jsval) \<times> world" where
  "getDeliveryAnnouncements w = read_data delivery_announcements_path (\<lambda>response. response) w"

definition getReusableBagsInfo :: "world \<Rightarrow> (error + jsval) \<times> world" where
  "getReusableBagsInfo w = read_data bags_path (\<lambda>response. response) w"

section \<open>RohlikDevice: state\<close>

text \<open>
  The device owns a client, reads and writes the host's capability values, and holds
  the handle of the fast delivery timer. \<open>capabilities\<close> is what
  \<^verbatim>\<open>getCapabilityValue\<close> reads; \<open>host_accepts\<close> says for which writes the promise of
  \<^verbatim>\<open>setCapabilityValue\<close> resolves. \<open>timers\<close> are the host's running intervals, each with
  its handle, its callback and its period in milliseconds. \<open>journal\<close> records what the
  device did: the client operations it called, the capability writes, the errors it
  logged.
\<close>

datatype callback = UpdateData | UpdateDeliveryStatusOnly

datatype action =
    ClientCall string "string list"
  | SetCapability string jsval
  | ErrorLog string

record device =
  client :: world
  capabilities :: "string \<Rightarrow> jsval"
  host_accepts :: "string \<Rightarrow> jsval \<Rightarrow> bool"
  deliveryPollingInterval :: "nat option"
  timers :: "(nat \<times> callback \<times> int) list"
  next_timer :: nat
  journal :: "action list"

text \<open>\<^verbatim>\<open>setInterval\<close> hands out a fresh handle (a \<^verbatim>\<open>Timeout\<close> object, always truthy);
  \<^verbatim>\<open>clearInterval\<close> stops the timer of a handle.\<close>

definition setInterval :: "callback \<Rightarrow> int \<Rightarrow> device \<Rightarrow> nat \<times> device" where
  "setInterval cb ms d =
     (next_timer d,
      d\<lparr> timers := timers d @ [(next_timer d, cb, ms)], next_timer := Suc (next_timer d) \<rparr>)"

definition clearInterval :: "nat \<Rightarrow> device \<Rightarrow> device" where
  "clearInterval h d = d\<lparr> timers := filter (\<lambda>t. fst t \<noteq> h) (timers d) \<rparr>"

section \<open>RohlikDevice: publishing capability values\<close>

text \<open>\<^verbatim>\<open>a !== b\<close>. Primitives compare by value. Two objects or arrays are equal only as
  the same reference; a value derived in a tick is never the object the host stores,
  so they compare as different.\<close>

fun strict_neq :: "jsval \<Rightarrow> jsval \<Rightarrow> bool" where
  "strict_neq (JArr xs) b = True"
| "strict_neq (JObj kvs) b = True"
| "strict_neq a b = (a \<noteq> b)"

text \<open>\<^verbatim>\<open>await this.setCapabilityValue(capabilityId, value).catch(this.error)\<close>: the write
  goes to the host; a rejection is logged and swallowed.\<close>

definition setCapabilityValue :: "string \<Rightarrow> jsval \<Rightarrow> device \<Rightarrow> device" where
  "setCapabilityValue capabilityId v d =
     (if host_accepts d capabilityId v
      then d\<lparr> capabilities := (capabilities d)(capabilityId := v),
              journal := journal d @ [SetCapability capabilityId v] \<rparr>
      else d\<lparr> journal := journal d @ [SetCapability capabilityId v, ErrorLog ''setCapabilityValue''] \<rparr>)"

definition updateCapabilityValue :: "string \<Rightarrow> jsval \<Rightarrow> device \<Rightarrow> device" where
  "updateCapabilityValue capabilityId v d =
     (let currentValue = capabilities d capabilityId
      in if strict_neq currentValue v then setCapabilityValue capabilityId v d else d)"

section \<open>RohlikDevice: calling the client\<close>

text \<open>
  \<^verbatim>\<open>initClient\<close> registers one listener on the client: on \<^verbatim>\<open>reusable_bags\<close> the emitted
  count is published to \<^verbatim>\<open>measure_reusable_bags\<close>. \<^verbatim>\<open>emit\<close> runs it at once, inside the
  request that emits.
\<close>

fun on_client_events :: "event list \<Rightarrow> device \<Rightarrow> device" where
  "on_client_events [] d = d"
| "on_client_events (Emit n v # evs) d =
     on_client_events evs
       (if n = ''reusable_bags'' then updateCapabilityValue ''measure_reusable_bags'' v d else d)"
| "on_client_events (Request m u c # evs) d = on_client_events evs d"
| "on_client_events (LoginRequest u # evs) d = on_client_events evs d"

text \<open>A call of a client operation by the device, noted in the journal; the events
  the client emits during the call reach the listener.\<close>

definition call_client ::
  "string \<Rightarrow> string list \<Rightarrow> (world \<Rightarrow> (error + 'a) \<times> world) \<Rightarrow> device \<Rightarrow> (error + 'a) \<times> device" where
  "call_client method_name args operation d =
     (let (r, c) = operation (client d);
          d1 = d\<lparr> client := c, journal := journal d @ [ClientCall method_name args] \<rparr>
      in (r, on_client_events (new_events (client d) c) d1))"

section \<open>RohlikDevice: delivery status\<close>

definition manageDeliveryPolling :: "string \<Rightarrow> device \<Rightarrow> device" where
  "manageDeliveryPolling status d =
     (if status = ''delivery''
      then (case deliveryPollingInterval d of
              None \<Rightarrow>
                (let (h, d1) = setInterval UpdateDeliveryStatusOnly (60 * 1000) d
                 in d1\<lparr> deliveryPollingInterval := Some h \<rparr>)
            | Some h \<Rightarrow> d)
      else (case deliveryPollingInterval d of
              Some h \<Rightarrow> (clearInterval h d)\<lparr> deliveryPollingInterval := None \<rparr>
            | None \<Rightarrow> d))"

text \<open>
  The regular expression of both callers matches the text \<^verbatim>\<open><span\<close>, any characters
  other than \<^verbatim>\<open>>\<close>, one \<^verbatim>\<open>>\<close>, a group of one or more digits, and the closing tag
  of the span. Every step of it is forced: the run of other characters ends at the
  first \<^verbatim>\<open>>\<close>, and the group takes the whole run of digits (a shorter run would leave
  a digit where the closing tag must start). \<open>match_span_here\<close> is the pattern
  anchored at the head of the string, \<open>match_span\<close> the leftmost match that
  \<^verbatim>\<open>content.match\<close> finds; both give the group.
\<close>

fun skip_attrs :: "string \<Rightarrow> string option" where
  "skip_attrs [] = None"
| "skip_attrs (c # cs) = (if c = CHR ''>'' then Some cs else skip_attrs cs)"

definition match_span_here :: "string \<Rightarrow> string option" where
  "match_span_here s =
     (if starts_with ''<span'' s
      then (case skip_attrs (drop 5 s) of
              None \<Rightarrow> None
            | Some rest \<Rightarrow>
                (let ds = takeWhile is_digit rest
                 in if ds \<noteq> [] \<and> starts_with ''</span>'' (dropWhile is_digit rest)
                    then Some ds else None))
      else None)"

fun match_span :: "string \<Rightarrow> string option" where
  "match_span [] = None"
| "match_span (c # cs) =
     (case match_span_here (c # cs) of
        Some ds \<Rightarrow> Some ds
      | None \<Rightarrow> match_span cs)"

text \<open>
  \<^verbatim>\<open>x > 0\<close> converts \<open>x\<close> to a number. A string is read as a numeric literal between
  white space: a hexadecimal, octal or binary integer, or a signed decimal with an
  optional fraction and exponent, or \<^verbatim>\<open>Infinity\<close>; the empty string is 0 and every
  other string is \<^verbatim>\<open>NaN\<close>. The comparison holds when the literal is positive and does
  not round to 0 as a double, which a decimal \<open>m * 10 ^ e\<close> does up to \<open>2 ^ -1075\<close>.
\<close>

definition is_space :: "char \<Rightarrow> bool" where
  "is_space c = (c \<in> set [CHR 0x09, CHR 0x0A, CHR 0x0B, CHR 0x0C, CHR 0x0D, CHR 0x20, CHR 0xA0])"

definition trim :: "string \<Rightarrow> string" where
  "trim s = rev (dropWhile is_space (rev (dropWhile is_space s)))"

definition radix_positive :: "string \<Rightarrow> string \<Rightarrow> bool" where
  "radix_positive allowed ds =
     (ds \<noteq> [] \<and> list_all (\<lambda>c. c \<in> set allowed) ds \<and> \<not> list_all (\<lambda>c. c = CHR ''0'') ds)"

text \<open>The exponent part of a decimal literal: absent, or \<^verbatim>\<open>e\<close> with a signed run of
  digits; \<open>None\<close> for anything else.\<close>

definition exponent_part :: "string \<Rightarrow> int option" where
  "exponent_part s =
     (case s of
        [] \<Rightarrow> Some 0
      | c # cs \<Rightarrow>
          (if c = CHR ''e'' \<or> c = CHR ''E''
           then (let negative = (cs \<noteq> [] \<and> hd cs = CHR ''-'');
                     ds = (if cs \<noteq> [] \<and> (hd cs = CHR ''-'' \<or> hd cs = CHR ''+'') then tl cs else cs)
                 in if ds \<noteq> [] \<and> list_all is_digit ds
                    then Some (if negative then - digits_value ds else digits_value ds)
                    else None)
           else None))"

definition decimal_positive :: "string \<Rightarrow> bool" where
  "decimal_positive s =
     (let whole = takeWhile is_digit s;
          rest = dropWhile is_digit s;
          dot = (rest \<noteq> [] \<and> hd rest = CHR ''.'');
          fraction = (if dot then takeWhile is_digit (tl rest) else []);
          tail = (if dot then dropWhile is_digit (tl rest) else rest);
          m = digits_value (whole @ fraction)
      in (whole \<noteq> [] \<or> fraction \<noteq> []) \<and>
         (case exponent_part tail of
            None \<Rightarrow> False
          | Some e \<Rightarrow>
              0 < m \<and>
              (let e10 = e - int (length fraction)
               in 0 \<le> e10 \<or> 10 ^ nat (- e10) < m * 2 ^ 1075)))"

definition string_gt_zero :: "string \<Rightarrow> bool" where
  "string_gt_zero s =
     (let t = trim s
      in if starts_with ''0x'' t \<or> starts_with ''0X'' t
         then radix_positive ''0123456789abcdefABCDEF'' (drop 2 t)
         else if starts_with ''0o'' t \<or> starts_with ''0O'' t
         then radix_positive ''01234567'' (drop 2 t)
         else if starts_with ''0b'' t \<or> starts_with ''0B'' t
         then radix_positive ''01'' (drop 2 t)
         else (case t of
                 [] \<Rightarrow> False
               | c # cs \<Rightarrow>
                   (if c = CHR ''-'' then False
                    else (let u = (if c = CHR ''+'' then cs else t)
                          in u = ''Infinity'' \<or> decimal_positive u))))"

text \<open>An array is converted through its string, the joined elements; an object
  through \<^verbatim>\<open>[object Object]\<close>, which is no numeral; \<^verbatim>\<open>null\<close> is 0, \<^verbatim>\<open>undefined\<close> is
  \<^verbatim>\<open>NaN\<close>, a boolean is 0 or 1.\<close>

fun js_gt_zero :: "jsval \<Rightarrow> bool" where
  "js_gt_zero (JNum n) = (0 < n)"
| "js_gt_zero JInf = True"
| "js_gt_zero (JBool b) = b"
| "js_gt_zero (JStr s) = string_gt_zero s"
| "js_gt_zero (JArr xs) = string_gt_zero (js_String (JArr xs))"
| "js_gt_zero (JObj kvs) = False"
| "js_gt_zero JNull = False"
| "js_gt_zero JUndefined = False"

text \<open>
  The block both \<^verbatim>\<open>updateGeneralData\<close> and \<^verbatim>\<open>updateDeliveryStatusOnly\<close> run on the
  fetched announcements: it derives \<^verbatim>\<open>shipmentState\<close> and \<^verbatim>\<open>eta\<close>. A \<^verbatim>\<open>null\<close> first
  announcement, or a truthy \<^verbatim>\<open>content\<close> that is no string (it has no \<^verbatim>\<open>match\<close>),
  raises.
\<close>

definition delivery_status :: "jsval \<Rightarrow> error + string \<times> jsval" where
  "delivery_status deliveryAnnouncements =
     (if truthy deliveryAnnouncements
         \<and> truthy (js_opt_get deliveryAnnouncements ''announcements'')
         \<and> js_gt_zero (js_opt_get (js_opt_get deliveryAnnouncements ''announcements'') ''length'')
      then (let announcement = js_opt_first (js_opt_get deliveryAnnouncements ''announcements'')
            in case js_get announcement ''icon'' of
                 Inl e \<Rightarrow> Inl e
               | Inr icon \<Rightarrow>
                   (if icon = JStr ''iconDeliveryCar''
                    then (let content = js_opt_get announcement ''content''
                          in if truthy content
                             then (case content of
                                     JStr s \<Rightarrow>
                                       (case match_span s of
                                          Some ds \<Rightarrow> Inr (''delivery'', parseInt ds)
                                        | None \<Rightarrow> Inr (''delivery'', JNum 0))
                                   | _ \<Rightarrow> Inl TypeError)
                             else Inr (''delivery'', JNum 0))
                    else if icon = JStr ''iconProducts''
                    then Inr (''preparing_bags'', JNum 0)
                    else Inr (''no_upcoming_order'', JNum 0)))
      else Inr (''no_upcoming_order'', JNum 0))"

text \<open>Publishing the derived state and re-arming the fast timer, the tail both
  callers share.\<close>

definition publish_delivery_status :: "string \<times> jsval \<Rightarrow> device \<Rightarrow> device" where
  "publish_delivery_status st d =
     (let d1 = updateCapabilityValue ''string_next_delivery_status'' (JStr (fst st)) d;
          d2 = updateCapabilityValue ''measure_next_delivery_eta'' (snd st) d1
      in manageDeliveryPolling (fst st) d2)"

definition updateDeliveryStatusOnly :: "device \<Rightarrow> device" where
  "updateDeliveryStatusOnly d =
     (if \<not> truthy (userId (client d)) then d
      else (case call_client ''getDeliveryAnnouncements'' [] getDeliveryAnnouncements d of
              (Inl e, d1) \<Rightarrow> d1\<lparr> journal := journal d1 @ [ErrorLog ''Delivery status update failed:''] \<rparr>
            | (Inr deliveryAnnouncements, d1) \<Rightarrow>
                (case delivery_status deliveryAnnouncements of
                   Inl e \<Rightarrow> d1\<lparr> journal := journal d1 @ [ErrorLog ''Delivery status update failed:''] \<rparr>
                 | Inr st \<Rightarrow> publish_delivery_status st d1)))"

section \<open>RohlikDevice: the general-data update\<close>

text \<open>Step 2 of \<^verbatim>\<open>updateGeneralData\<close> only computes locals from the first upcoming order;
  what is left of it is the \<^verbatim>\<open>TypeError\<close> of reading \<^verbatim>\<open>nextOrder.deliveryUnixTime\<close> on a
  \<^verbatim>\<open>null\<close> entry.\<close>

definition next_order_check :: "jsval \<Rightarrow> error + unit" where
  "next_order_check upcoming =
     (if truthy upcoming \<and> js_gt_zero (js_opt_get upcoming ''length'')
      then (case js_get (js_opt_first upcoming) ''deliveryUnixTime'' of
              Inl e \<Rightarrow> Inl e
            | Inr t \<Rightarrow> Inr ())
      else Inr ())"

text \<open>\<^verbatim>\<open>bagsInfo && typeof bagsInfo.current === 'number'\<close>.\<close>

definition bags_count :: "jsval \<Rightarrow> jsval option" where
  "bags_count bagsInfo =
     (if truthy bagsInfo \<and> is_number (js_opt_get bagsInfo ''current'')
      then Some (js_opt_get bagsInfo ''current'')
      else None)"

text \<open>
  \<^verbatim>\<open>updateGeneralData\<close> of \<^verbatim>\<open>drivers/rohlik/device.js\<close> runs four numbered steps in
  sequence, each awaited, none wrapped in a \<^verbatim>\<open>try\<close>: a failure of any step ends the
  update and is its result. \<^verbatim>\<open>updateData\<close>, the caller, is where it is caught.
\<close>

definition and_then ::
  "(error + unit) \<times> device \<Rightarrow> (device \<Rightarrow> (error + unit) \<times> device) \<Rightarrow> (error + unit) \<times> device" where
  "and_then r next_step =
     (case r of
        (Inl e, d) \<Rightarrow> (Inl e, d)
      | (Inr u, d) \<Rightarrow> next_step d)"

text \<open>1. Cart.\<close>

definition general_cart :: "device \<Rightarrow> (error + unit) \<times> device" where
  "general_cart d =
     (case call_client ''getCartContent'' [] getCartContent d of
        (Inl e, d1) \<Rightarrow> (Inl e, d1)
      | (Inr cart, d1) \<Rightarrow>
          (let d2 = updateCapabilityValue ''measure_cart_total'' (totalPrice cart) d1
           in (Inr (), updateCapabilityValue ''measure_cart_items'' (JNum (int (totalItems cart))) d2)))"

text \<open>2. Upcoming Orders.\<close>

definition general_upcoming_orders :: "device \<Rightarrow> (error + unit) \<times> device" where
  "general_upcoming_orders d =
     (case call_client ''getUpcomingOrders'' [] getUpcomingOrders d of
        (Inl e, d1) \<Rightarrow> (Inl e, d1)
      | (Inr upcoming, d1) \<Rightarrow>
          (case next_order_check upcoming of
             Inl e \<Rightarrow> (Inl e, d1)
           | Inr u \<Rightarrow> (Inr (), d1)))"

text \<open>3. Delivery Status Announcement Logic.\<close>

definition general_delivery_status :: "device \<Rightarrow> (error + unit) \<times> device" where
  "general_delivery_status d =
     (case call_client ''getDeliveryAnnouncements'' [] getDeliveryAnnouncements d of
        (Inl e, d1) \<Rightarrow> (Inl e, d1)
      | (Inr deliveryAnnouncements, d1) \<Rightarrow>
          (case delivery_status deliveryAnnouncements of
             Inl e \<Rightarrow> (Inl e, d1)
           | Inr st \<Rightarrow> (Inr (), publish_delivery_status st d1)))"

text \<open>4. Reusable Bags Logic.\<close>

definition general_reusable_bags :: "device \<Rightarrow> (error + unit) \<times> device" where
  "general_reusable_bags d =
     (case call_client ''getReusableBagsInfo'' [] getReusableBagsInfo d of
        (Inl e, d1) \<Rightarrow> (Inl e, d1)
      | (Inr bagsInfo, d1) \<Rightarrow>
          (case bags_count bagsInfo of
             Some n \<Rightarrow> (Inr (), updateCapabilityValue ''measure_reusable_bags'' n d1)
           | None \<Rightarrow> (Inr (), d1)))"

definition updateGeneralData :: "device \<Rightarrow> (error + unit) \<times> device" where
  "updateGeneralData d =
     (if \<not> truthy (userId (client d)) then (Inr (), d)
      else and_then
             (and_then
                (and_then (general_cart d) general_upcoming_orders)
                general_delivery_status)
             general_reusable_bags)"

section \<open>RohlikDevice: removing a cart item by product id\<close>

text \<open>
  \<^verbatim>\<open>onFlowActionRemoveItemById(args, state)\<close>, with \<^verbatim>\<open>args.product_id\<close> as its argument.
  It ends with \<^verbatim>\<open>await this.updateData()\<close>, which runs the general and the slot update
  side by side and catches whatever they raise; that refresh is the parameter
  \<open>refresh\<close>.
\<close>

definition onFlowActionRemoveItemById ::
  "(device \<Rightarrow> device) \<Rightarrow> jsval \<Rightarrow> device \<Rightarrow> (error + unit) \<times> device" where
  "onFlowActionRemoveItemById refresh product_id d =
     (if \<not> truthy product_id then (Inl ArgumentError, d)
      else (case call_client ''getCartContent'' [] getCartContent d of
              (Inl e, d1) \<Rightarrow> (Inl e, d1)
            | (Inr cart, d1) \<Rightarrow>
                (case find (\<lambda>i. JStr (id' i) = product_id \<or> id' i = js_String product_id) (items cart) of
                   None \<Rightarrow> (Inl NotFoundError, d1)
                 | Some item \<Rightarrow>
                     (case call_client ''removeFromCart'' [cart_item_id item]
                             (removeFromCart (cart_item_id item)) d1 of
                        (Inl e, d2) \<Rightarrow> (Inl e, d2)
                      | (Inr b, d2) \<Rightarrow> (Inr (), refresh d2)))))"

section \<open>RohlikDevice: the earlier revision of the general-data update\<close>

text \<open>
  The repository holds a second, earlier revision of the device class. It has no
  fast timer and no write-if-changed: a capability is written with
  \<^verbatim>\<open>await this.setCapabilityValue(...)\<close>, and a write the host rejects raises where it
  is awaited. Its \<^verbatim>\<open>updateGeneralData\<close> wraps the four steps in one \<^verbatim>\<open>try\<close> and the
  announcement step and the bag step each in a \<^verbatim>\<open>try\<close> of their own; every handler logs
  and goes on. Step 2 raises the \<^verbatim>\<open>courier_approaching\<close> trigger, at most once in thirty
  minutes, which \<open>lastCourierWarning\<close> remembers. \<open>flow_accepts\<close> says whether the host
  resolves the promise of a trigger; \<open>triggered\<close> records the triggers raised, with
  their \<^verbatim>\<open>eta\<close> token (\<open>None\<close> for \<^verbatim>\<open>NaN\<close>).
\<close>

record legacy_device =
  base :: device
  lastCourierWarning :: "int option"
  flow_accepts :: bool
  triggered :: "(string \<times> int option) list"

text \<open>
  The arithmetic on \<^verbatim>\<open>Date\<close> objects in step 2 belongs to the platform and is a
  parameter: \<open>from_unix v now\<close> is
  \<^verbatim>\<open>Math.floor((new Date(v * 1000) - now) / 60000)\<close> and \<open>from_text v now\<close> is
  \<^verbatim>\<open>Math.floor((new Date(v) - now) / 60000)\<close>, \<open>None\<close> for \<^verbatim>\<open>NaN\<close>.
\<close>

record date_arithmetic =
  from_unix :: "jsval \<Rightarrow> int \<Rightarrow> int option"
  from_text :: "jsval \<Rightarrow> int \<Rightarrow> int option"

definition log_error :: "string \<Rightarrow> device \<Rightarrow> device" where
  "log_error message d = d\<lparr> journal := journal d @ [ErrorLog message] \<rparr>"

text \<open>\<^verbatim>\<open>await this.setCapabilityValue(capabilityId, value)\<close> without a \<^verbatim>\<open>catch\<close>.\<close>

definition awaited_setCapabilityValue :: "string \<Rightarrow> jsval \<Rightarrow> device \<Rightarrow> (error + unit) \<times> device" where
  "awaited_setCapabilityValue capabilityId v d =
     (if host_accepts d capabilityId v
      then (Inr (), d\<lparr> capabilities := (capabilities d)(capabilityId := v),
                       journal := journal d @ [SetCapability capabilityId v] \<rparr>)
      else (Inl HostError, d\<lparr> journal := journal d @ [SetCapability capabilityId v] \<rparr>))"

text \<open>The listener of the earlier revision writes every emitted bag count.\<close>

fun legacy_on_client_events :: "event list \<Rightarrow> device \<Rightarrow> device" where
  "legacy_on_client_events [] d = d"
| "legacy_on_client_events (Emit n v # evs) d =
     legacy_on_client_events evs
       (if n = ''reusable_bags'' then setCapabilityValue ''measure_reusable_bags'' v d else d)"
| "legacy_on_client_events (Request m u c # evs) d = legacy_on_client_events evs d"
| "legacy_on_client_events (LoginRequest u # evs) d = legacy_on_client_events evs d"

definition legacy_call_client ::
  "string \<Rightarrow> string list \<Rightarrow> (world \<Rightarrow> (error + 'a) \<times> world) \<Rightarrow> device \<Rightarrow> (error + 'a) \<times> device" where
  "legacy_call_client method_name args operation d =
     (let (r, c) = operation (client d);
          d1 = d\<lparr> client := c, journal := journal d @ [ClientCall method_name args] \<rparr>
      in (r, legacy_on_client_events (new_events (client d) c) d1))"

text \<open>1. Cart.\<close>

definition legacy_cart :: "device \<Rightarrow> (error + unit) \<times> device" where
  "legacy_cart d =
     (case legacy_call_client ''getCartContent'' [] getCartContent d of
        (Inl e, d1) \<Rightarrow> (Inl e, d1)
      | (Inr cart, d1) \<Rightarrow>
          (case awaited_setCapabilityValue ''measure_cart_total'' (totalPrice cart) d1 of
             (Inl e, d2) \<Rightarrow> (Inl e, d2)
           | (Inr u, d2) \<Rightarrow>
               awaited_setCapabilityValue ''measure_cart_items'' (JNum (int (totalItems cart))) d2))"

text \<open>2. Upcoming Orders, with the courier warning.\<close>

definition courier_approaching :: "int option \<Rightarrow> int \<Rightarrow> legacy_device \<Rightarrow> legacy_device" where
  "courier_approaching eta now d =
     d\<lparr> base := (if flow_accepts d then base d else log_error ''trigger'' (base d)),
        triggered := triggered d @ [(''courier_approaching'', eta)],
        lastCourierWarning := Some now \<rparr>"

definition legacy_upcoming_orders :: "date_arithmetic \<Rightarrow> legacy_device \<Rightarrow> (error + unit) \<times> legacy_device" where
  "legacy_upcoming_orders dates d =
     (case legacy_call_client ''getUpcomingOrders'' [] getUpcomingOrders (base d) of
        (Inl e, b) \<Rightarrow> (Inl e, d\<lparr> base := b \<rparr>)
      | (Inr upcoming, b) \<Rightarrow>
          (let d1 = d\<lparr> base := b \<rparr>
           in if truthy upcoming \<and> js_gt_zero (js_opt_get upcoming ''length'')
              then (let nextOrder = js_opt_first upcoming;
                        now = clock (client b)
                    in case js_get nextOrder ''deliveryUnixTime'' of
                         Inl e \<Rightarrow> (Inl e, d1)
                       | Inr unixTime \<Rightarrow>
                           (let deliveryTime = js_opt_get nextOrder ''deliveryTime'';
                                diffMins = (if truthy unixTime then from_unix dates unixTime now
                                            else if truthy deliveryTime then from_text dates deliveryTime now
                                            else Some 0);
                                near = (case diffMins of None \<Rightarrow> False | Some m \<Rightarrow> 0 < m \<and> m < 15);
                                due = (case lastCourierWarning d1 of
                                         None \<Rightarrow> True
                                       | Some t \<Rightarrow> 30 * 60 * 1000 < now - t)
                            in if (js_opt_get nextOrder ''state'' = JStr ''Delivering'' \<or> near) \<and> due
                               then (Inr (), courier_approaching diffMins now d1)
                               else (Inr (), d1)))
              else (Inr (), d1)))"

text \<open>3. Delivery Status Announcement Logic, in its own \<^verbatim>\<open>try\<close>. The earlier revision
  derives the state only, no ETA.\<close>

definition legacy_shipment_state :: "jsval \<Rightarrow> error + string" where
  "legacy_shipment_state deliveryAnnouncements =
     (if truthy deliveryAnnouncements
         \<and> truthy (js_opt_get deliveryAnnouncements ''announcements'')
         \<and> js_gt_zero (js_opt_get (js_opt_get deliveryAnnouncements ''announcements'') ''length'')
      then (let announcement = js_opt_first (js_opt_get deliveryAnnouncements ''announcements'')
            in case js_get announcement ''icon'' of
                 Inl e \<Rightarrow> Inl e
               | Inr icon \<Rightarrow>
                   Inr (if icon = JStr ''iconDeliveryCar'' then ''delivery''
                        else if icon = JStr ''iconProducts'' then ''preparing_bags''
                        else ''no_upcoming_order''))
      else Inr ''no_upcoming_order'')"

definition legacy_delivery_status :: "device \<Rightarrow> device" where
  "legacy_delivery_status d =
     (case legacy_call_client ''getDeliveryAnnouncements'' [] getDeliveryAnnouncements d of
        (Inl e, d1) \<Rightarrow> log_error ''Failed to update delivery status:'' d1
      | (Inr deliveryAnnouncements, d1) \<Rightarrow>
          (case legacy_shipment_state deliveryAnnouncements of
             Inl e \<Rightarrow> log_error ''Failed to update delivery status:'' d1
           | Inr shipmentState \<Rightarrow>
               (case awaited_setCapabilityValue ''string_next_delivery_status'' (JStr shipmentState) d1 of
                  (Inl e, d2) \<Rightarrow> log_error ''Failed to update delivery status:'' d2
                | (Inr u, d2) \<Rightarrow> d2)))"

text \<open>4. Reusable Bags Logic, in its own \<^verbatim>\<open>try\<close>.\<close>

definition legacy_reusable_bags :: "device \<Rightarrow> device" where
  "legacy_reusable_bags d =
     (case legacy_call_client ''getReusableBagsInfo'' [] getReusableBagsInfo d of
        (Inl e, d1) \<Rightarrow> log_error ''Failed to update reusable bags:'' d1
      | (Inr bagsInfo, d1) \<Rightarrow>
          (case bags_count bagsInfo of
             None \<Rightarrow> d1
           | Some n \<Rightarrow>
               (case awaited_setCapabilityValue ''measure_reusable_bags'' n d1 of
                  (Inl e, d2) \<Rightarrow> log_error ''Failed to update reusable bags:'' d2
                | (Inr u, d2) \<Rightarrow> d2)))"

text \<open>The update: whatever steps 1 and 2 raise is logged by the outer handler, which
  ends the update; steps 3 and 4 both run once steps 1 and 2 went through.\<close>

definition legacy_updateGeneralData :: "date_arithmetic \<Rightarrow> legacy_device \<Rightarrow> legacy_device" where
  "legacy_updateGeneralData dates d =
     (if \<not> truthy (userId (client (base d))) then d
      else (case legacy_cart (base d) of
              (Inl e, b1) \<Rightarrow> d\<lparr> base := log_error ''Update General Data failed'' b1 \<rparr>
            | (Inr u, b1) \<Rightarrow>
                (case legacy_upcoming_orders dates (d\<lparr> base := b1 \<rparr>) of
                   (Inl e, d2) \<Rightarrow> d2\<lparr> base := log_error ''Update General Data failed'' (base d2) \<rparr>
                 | (Inr u, d2) \<Rightarrow>
                     d2\<lparr> base := legacy_reusable_bags (legacy_delivery_status (base d2)) \<rparr>)))"

section \<open>Observing an execution\<close>

text \<open>The login attempts among the events of an execution, and the calls (verb and
  URL) that \<^verbatim>\<open>makeRequest\<close> sent.\<close>

fun is_login :: "event \<Rightarrow> bool" where
  "is_login (LoginRequest u) = True"
| "is_login (Request m u c) = False"
| "is_login (Emit n v) = False"

definition logins :: "event list \<Rightarrow> nat" where
  "logins evs = length (filter is_login evs)"

fun requests :: "event list \<Rightarrow> (string \<times> string) list" where
  "requests [] = []"
| "requests (Request m u c # evs) = (m, u) # requests evs"
| "requests (LoginRequest u # evs) = requests evs"
| "requests (Emit n v # evs) = requests evs"

text \<open>A response that \<^verbatim>\<open>login\<close> takes as a success: an accepted status and a body
  whose \<^verbatim>\<open>data?.user?.id\<close> is truthy.\<close>

definition login_user_id :: "jsval \<Rightarrow> jsval" where
  "login_user_id data = js_opt_get (js_opt_get (js_opt_get data ''data'') ''user'') ''id''"

definition login_address_id :: "jsval \<Rightarrow> jsval" where
  "login_address_id data = js_opt_get (js_opt_get (js_opt_get data ''data'') ''address'') ''id''"

definition login_accepts :: "fetch_result \<Rightarrow> bool" where
  "login_accepts r =
     (case r of
        Rejected \<Rightarrow> False
      | Response status statusText setCookieHeader body \<Rightarrow>
          (status = 200 \<or> status = 202) \<and>
          (case body of
             None \<Rightarrow> False
           | Some data \<Rightarrow> truthy (login_user_id data)))"

definition auth_failure :: "nat \<Rightarrow> bool" where
  "auth_failure status = (status = 401 \<or> status = 403)"

text \<open>After an authentication failure on the first attempt: the world in which
  \<^verbatim>\<open>login\<close> starts.\<close>

definition after_first :: "string \<Rightarrow> options \<Rightarrow> world \<Rightarrow> world" where
  "after_first url opts w =
     (let w1 = rateLimit w;
          cookie = (if sessionCookies w1 \<noteq> [] then Some (sessionCookies w1) else None);
          (response, w2) = fetch (Request (method_of opts) (baseUrl w1 @ url) cookie) w1
      in case response of
           Rejected \<Rightarrow> w2
         | Response status statusText setCookieHeader body \<Rightarrow> capture_cookies setCookieHeader w2)"

text \<open>The dispatch times that \<open>n\<close> calls of \<^verbatim>\<open>rateLimit\<close> record when each call is
  issued as soon as the one before has returned.\<close>

fun throttle_times :: "nat \<Rightarrow> world \<Rightarrow> int list" where
  "throttle_times 0 w = []"
| "throttle_times (Suc n) w =
     (let w1 = rateLimit w in lastRequestTime w1 # throttle_times n w1)"

text \<open>
  Two calls of \<^verbatim>\<open>rateLimit\<close> started in the same turn of the event loop, as
  \<^verbatim>\<open>updateData\<close> starts the general and the slot update side by side: the second call
  runs up to its own timer before the timer of the first has ended. When the first
  call has to wait, the second reads the same clock and the same
  \<^verbatim>\<open>lastRequestTime\<close> and asks for the same delay; the two timers end together, the
  first call resumes and records, then the second (later by the next entry of
  \<open>ticks\<close>). When the first call does not wait it records at once, and the second
  is a call issued after it.
\<close>

definition rateLimit_overlapped :: "world \<Rightarrow> int list" where
  "rateLimit_overlapped w =
     (case rateLimit_delay w of
        None \<Rightarrow> throttle_times 2 w
      | Some delay \<Rightarrow>
          (let w1 = rateLimit_record (sleep delay w);
               w2 = rateLimit_record (pass_time w1)
           in [lastRequestTime w1, lastRequestTime w2]))"

text \<open>A world for a fresh client: the clock at \<open>now\<close>, the scripted lags and responses,
  an empty trace.\<close>

definition boot :: "client \<Rightarrow> int \<Rightarrow> int list \<Rightarrow> fetch_result list \<Rightarrow> world" where
  "boot c now lags responses =
     client.extend c \<lparr> clock = now, ticks = lags, net = responses, trace = [] \<rparr>"

section \<open>Observing the device\<close>

text \<open>The actions an execution added to the journal; the client methods called among
  them, the arguments of the \<^verbatim>\<open>removeFromCart\<close> calls, and the number of writes to a
  capability.\<close>

definition new_actions :: "device \<Rightarrow> device \<Rightarrow> action list" where
  "new_actions d d' = drop (length (journal d)) (journal d')"

fun client_calls :: "action list \<Rightarrow> string list" where
  "client_calls [] = []"
| "client_calls (ClientCall n args # acts) = n # client_calls acts"
| "client_calls (SetCapability c v # acts) = client_calls acts"
| "client_calls (ErrorLog m # acts) = client_calls acts"

fun removals :: "action list \<Rightarrow> string list list" where
  "removals [] = []"
| "removals (ClientCall n args # acts) =
     (if n = ''removeFromCart'' then args # removals acts else removals acts)"
| "removals (SetCapability c v # acts) = removals acts"
| "removals (ErrorLog m # acts) = removals acts"

fun is_write_to :: "string \<Rightarrow> action \<Rightarrow> bool" where
  "is_write_to c (SetCapability c' v) = (c = c')"
| "is_write_to c (ClientCall n args) = False"
| "is_write_to c (ErrorLog m) = False"

definition writes :: "string \<Rightarrow> action list \<Rightarrow> nat" where
  "writes c acts = length (filter (is_write_to c) acts)"

text \<open>The values a capability holds: booleans, numbers, strings and \<^verbatim>\<open>null\<close>.\<close>

fun is_primitive :: "jsval \<Rightarrow> bool" where
  "is_primitive (JArr xs) = False"
| "is_primitive (JObj kvs) = False"
| "is_primitive v = True"

text \<open>The running fast delivery timers, whether the device holds a handle, and the
  agreement of the two: the handle the device holds is the one fast timer running.\<close>

definition fast_timers :: "device \<Rightarrow> (nat \<times> callback \<times> int) list" where
  "fast_timers d = filter (\<lambda>t. fst (snd t) = UpdateDeliveryStatusOnly) (timers d)"

definition armed :: "device \<Rightarrow> bool" where
  "armed d = (deliveryPollingInterval d \<noteq> None)"

definition timer_consistent :: "device \<Rightarrow> bool" where
  "timer_consistent d =
     (map fst (fast_timers d) = (case deliveryPollingInterval d of None \<Rightarrow> [] | Some h \<Rightarrow> [h]))"

text \<open>The predicate of \<^verbatim>\<open>cart.items.find\<close> in the removal by product id.\<close>

definition matches_product :: "jsval \<Rightarrow> cart_item \<Rightarrow> bool" where
  "matches_product product_id i = (JStr (id' i) = product_id \<or> id' i = js_String product_id)"


text \<open>A payload of the announcement endpoint with the given list.\<close>

definition announcement_list :: "jsval list \<Rightarrow> jsval" where
  "announcement_list anns = JObj [(''announcements'', JArr anns)]"

section \<open>Example worlds\<close>

text \<open>A client for the CZ mirror at a fixed time, with scripted responses.\<close>

definition fresh :: "fetch_result list \<Rightarrow> world" where
  "fresh responses =
     boot (constructor ''user@example.com'' ''secret'' (Some ''cz'')) 1700000000000 [] responses"

text \<open>A response that logs user 7 with address 9 in.\<close>

definition login_ok :: fetch_result where
  "login_ok =
     Response 200 ''OK'' (Some ''sid=1'')
       (Some (JObj [(''data'', JObj [(''user'', JObj [(''id'', JNum 7)]),
                                    (''address'', JObj [(''id'', JNum 9)])])]))"



text \<open>A login followed by an answered logout.\<close>

definition session_script :: "fetch_result list" where
  "session_script = [login_ok, Response 200 ''OK'' None (Some (JObj []))]"

definition logged_in :: world where
  "logged_in = snd (login (fresh session_script))"


text \<open>A client whose first timer ends 1 ms early by the clock.\<close>

definition hasty :: world where
  "hasty = boot (constructor ''user@example.com'' ''secret'' None) 1700000000000 [-1] []"

text \<open>A client that dispatched a request 40 ms ago, with exact timers.\<close>

definition busy :: world where
  "busy = (rateLimit (fresh []))\<lparr> clock := 1700000000040 \<rparr>"

text \<open>A device as \<^verbatim>\<open>onInit\<close> leaves it: the general timer running at its default of ten
  minutes, no capability published, a host that accepts every write.\<close>

definition device_with :: "world \<Rightarrow> device" where
  "device_with w =
     \<lparr> client = w,
       capabilities = (\<lambda>c. JNull),
       host_accepts = (\<lambda>c v. True),
       deliveryPollingInterval = None,
       timers = [(0, UpdateData, 10 * 60000)],
       next_timer = 1,
       journal = [] \<rparr>"

definition json_ok :: "jsval \<Rightarrow> fetch_result" where
  "json_ok j = Response 200 ''OK'' None (Some j)"

text \<open>A cart with one line: product 10 on line 99.\<close>

definition cart_json :: jsval where
  "cart_json =
     JObj [(''data'',
       JObj [(''totalPrice'', JNum 120),
             (''items'',
                JObj [(''10'', JObj [(''productId'', JNum 10), (''orderFieldId'', JNum 99),
                                    (''productName'', JStr ''Rohlik''), (''quantity'', JNum 2),
                                    (''price'', JNum 60)])])])]"

definition upcoming_json :: jsval where
  "upcoming_json = JObj [(''data'', JArr [])]"

definition courier_json :: jsval where
  "courier_json =
     JObj [(''data'', announcement_list
        [JObj [(''icon'', JStr ''iconDeliveryCar''), (''content'', JStr ''<span>7</span>'')]])]"

definition bags_json :: jsval where
  "bags_json = JObj [(''data'', JObj [(''current'', JNum 3)])]"

text \<open>The line that \<open>cart_json\<close> holds, as \<^verbatim>\<open>getCartContent\<close> returns it.\<close>

definition cart_line :: cart_item where
  "cart_line = \<lparr> id' = ''10'', cart_item_id = ''99'', name = JStr ''Rohlik'', quantity = JNum 2,
                  price = JNum 60, pricePerUnit = JUndefined \<rparr>"

text \<open>A logged-in device whose next request is the cart read, then a removal.\<close>

definition removal_device :: device where
  "removal_device =
     device_with (snd (login (fresh [login_ok, json_ok cart_json, json_ok (JObj [])])))"

text \<open>A general-data tick in which every sub-fetch is answered.\<close>

definition healthy_device :: device where
  "healthy_device =
     device_with (snd (login (fresh
       [login_ok, json_ok cart_json, json_ok upcoming_json, json_ok courier_json, json_ok bags_json])))"


text \<open>The earlier revision of the device on the same client, and a platform whose
  dates are all invalid.\<close>

definition legacy_with :: "world \<Rightarrow> legacy_device" where
  "legacy_with w =
     \<lparr> base = device_with w, lastCourierWarning = None, flow_accepts = True, triggered = [] \<rparr>"

definition no_dates :: date_arithmetic where
  "no_dates = \<lparr> from_unix = (\<lambda>v now. None), from_text = (\<lambda>v now. None) \<rparr>"

section \<open>Facts about the client's primitives\<close>



lemma pass_time_fields [simp]:
  "lastRequestTime (pass_time w) = lastRequestTime w"
  "minRequestInterval (pass_time w) = minRequestInterval w"
  "net (pass_time w) = net w"
  "trace (pass_time w) = trace w"
  "baseUrl (pass_time w) = baseUrl w"
  "sessionCookies (pass_time w) = sessionCookies w"
  "userId (pass_time w) = userId w"
  "addressId (pass_time w) = addressId w"
  by (simp_all add: pass_time_def split: list.splits)



lemma sleep_fields [simp]:
  "lastRequestTime (sleep d w) = lastRequestTime w"
  "minRequestInterval (sleep d w) = minRequestInterval w"
  "net (sleep d w) = net w"
  "trace (sleep d w) = trace w"
  "baseUrl (sleep d w) = baseUrl w"
  "sessionCookies (sleep d w) = sessionCookies w"
  "userId (sleep d w) = userId w"
  "addressId (sleep d w) = addressId w"
  by (simp_all add: sleep_def)

lemma rateLimit_fields [simp]:
  "minRequestInterval (rateLimit w) = minRequestInterval w"
  "net (rateLimit w) = net w"
  "trace (rateLimit w) = trace w"
  "baseUrl (rateLimit w) = baseUrl w"
  "sessionCookies (rateLimit w) = sessionCookies w"
  "userId (rateLimit w) = userId w"
  "addressId (rateLimit w) = addressId w"
  by (simp_all add: rateLimit_def Let_def)





lemma throttle_times_length [simp]: "length (throttle_times n w) = n"
  by (induction n arbitrary: w) (simp_all add: Let_def)



lemma capture_cookies_fields [simp]:
  "net (capture_cookies c w) = net w"
  "trace (capture_cookies c w) = trace w"
  "baseUrl (capture_cookies c w) = baseUrl w"
  "userId (capture_cookies c w) = userId w"
  "addressId (capture_cookies c w) = addressId w"
  by (simp_all add: capture_cookies_def split: option.splits)

lemma fetch_fields [simp]:
  "trace (snd (fetch ev w)) = trace w @ [ev]"
  "baseUrl (snd (fetch ev w)) = baseUrl w"
  "sessionCookies (snd (fetch ev w)) = sessionCookies w"
  "userId (snd (fetch ev w)) = userId w"
  "addressId (snd (fetch ev w)) = addressId w"
  "net (snd (fetch ev w)) = tl (net w)"
  "fst (fetch ev w) = (case net w of [] \<Rightarrow> Rejected | r # rs \<Rightarrow> r)"
  by (simp_all add: fetch_def Let_def split: list.splits)

lemma js_opt_get_Inl: "js_get v k = Inl e \<Longrightarrow> js_opt_get v k = JUndefined"
  by (simp add: js_opt_get_def)

lemma js_opt_get_Inr: "js_get v k = Inr x \<Longrightarrow> js_opt_get v k = x"
  by (simp add: js_opt_get_def)

lemma login_trace [simp]: "trace (snd (login w)) = trace w @ [LoginRequest (baseUrl w @ login_path)]"
  by (simp add: login_def Let_def split_beta split: fetch_result.splits option.splits sum.splits list.splits)

lemma login_net [simp]: "net (snd (login w)) = tl (net w)"
  by (simp add: login_def Let_def split_beta split: fetch_result.splits option.splits sum.splits list.splits)

lemma login_baseUrl [simp]: "baseUrl (snd (login w)) = baseUrl w"
  by (simp add: login_def Let_def split_beta split: fetch_result.splits option.splits sum.splits list.splits)

lemma login_user_id_eq:
  "js_get data ''data'' = Inr d \<Longrightarrow> login_user_id data = js_opt_get (js_opt_get d ''user'') ''id''"
  "js_get data ''data'' = Inr d \<Longrightarrow> login_address_id data = js_opt_get (js_opt_get d ''address'') ''id''"
  by (simp_all add: login_user_id_def login_address_id_def js_opt_get_Inr)

lemma login_user_id_nullish:
  "js_get data ''data'' = Inl e \<Longrightarrow> login_user_id data = JUndefined"
  by (simp add: login_user_id_def js_opt_get_Inl js_opt_get_def)





lemma js_get_error: "js_get v k = Inl e \<Longrightarrow> e = TypeError"
  by (cases v) auto

lemma login_error_message_error: "login_error_message data = Inl e \<Longrightarrow> e = TypeError"
  by (auto simp: login_error_message_def Let_def split: sum.splits if_splits dest: js_get_error)

lemma login_failure_cases:
  "fst (login w) \<noteq> Inl AuthError"
  by (auto simp add: login_def Let_def split_beta split: fetch_result.splits option.splits sum.splits list.splits
      dest: js_get_error login_error_message_error)

lemma login_succeeds_iff:
  "(\<exists>u. fst (login w) = Inr u) \<longleftrightarrow> (case net w of [] \<Rightarrow> False | r # rs \<Rightarrow> login_accepts r)"
proof (cases "net w")
  case Nil
  then show ?thesis by (simp add: login_def Let_def split_beta)
next
  case (Cons r rs)
  show ?thesis
  proof (cases r)
    case Rejected
    with Cons show ?thesis by (simp add: login_def Let_def split_beta login_accepts_def)
  next
    case (Response status statusText setCookieHeader body)
    show ?thesis
    proof (cases body)
      case None
      with Cons Response show ?thesis by (simp add: login_def Let_def split_beta login_accepts_def)
    next
      case (Some data)
      show ?thesis
      proof (cases "js_get data ''data''")
        case (Inl e)
        with Cons Response Some show ?thesis
          by (auto simp add: login_def Let_def split_beta login_accepts_def login_user_id_nullish split: sum.splits)
      next
        case (Inr d)
        with Cons Response Some show ?thesis
          by (auto simp add: login_def Let_def split_beta login_accepts_def login_user_id_eq split: sum.splits)
      qed
    qed
  qed
qed

lemma emit_bags_trace:
  "\<exists>es. trace (snd (emit_bags url j w)) = trace w @ es \<and> logins es = 0 \<and> requests es = []"
  by (auto simp add: emit_bags_def Let_def logins_def split: sum.splits jsval.splits)

lemma emit_bags_fields [simp]:
  "net (snd (emit_bags url j w)) = net w"
  "userId (snd (emit_bags url j w)) = userId w"
  "addressId (snd (emit_bags url j w)) = addressId w"
  "baseUrl (snd (emit_bags url j w)) = baseUrl w"
  "sessionCookies (snd (emit_bags url j w)) = sessionCookies w"
  by (auto simp add: emit_bags_def Let_def split: sum.splits jsval.splits)

text \<open>A retry: one request, no login, no further attempt.\<close>

lemma makeRequest_retry:
  "makeRequest url opts True w =
     (let w1 = rateLimit w;
          cookie = (if sessionCookies w1 \<noteq> [] then Some (sessionCookies w1) else None);
          (response, w2) = fetch (Request (method_of opts) (baseUrl w1 @ url) cookie) w1
      in case response of
           Rejected \<Rightarrow> (Inl NetworkError, w2)
         | Response status statusText setCookieHeader body \<Rightarrow>
             (let w3 = capture_cookies setCookieHeader w2
              in if status = 401 \<or> status = 403
                 then (Inl AuthError, w3)
                 else if \<not> (200 \<le> status \<and> status \<le> 299)
                 then (Inl (HttpError status statusText), w3)
                 else (case body of
                         None \<Rightarrow> (Inl JsonError, w3)
                       | Some jsonData \<Rightarrow> emit_bags url jsonData w3)))"
  by (subst makeRequest.simps) (simp add: Let_def split_beta split: fetch_result.splits)

lemma makeRequest_retry_events:
  "\<exists>c es. trace (snd (makeRequest url opts True w)) = trace w @ Request (method_of opts) (baseUrl w @ url) c # es
        \<and> logins es = 0 \<and> requests es = []"
proof -
  let ?ev = "Request (method_of opts) (baseUrl (rateLimit w) @ url)
               (if sessionCookies (rateLimit w) \<noteq> [] then Some (sessionCookies (rateLimit w)) else None)"
  obtain response w2 where f: "fetch ?ev (rateLimit w) = (response, w2)" by (cases "fetch ?ev (rateLimit w)")
  then have t: "trace w2 = trace w @ [?ev]" using fetch_fields(1) [of ?ev "rateLimit w"] by simp
  show ?thesis
  proof (cases response)
    case Rejected
    with f t show ?thesis by (simp add: makeRequest_retry Let_def logins_def)
  next
    case (Response status statusText setCookieHeader body)
    show ?thesis
    proof (cases "status = 401 \<or> status = 403 \<or> \<not> (200 \<le> status \<and> status \<le> 299) \<or> body = None")
      case True
      with f t Response show ?thesis by (auto simp add: makeRequest_retry Let_def logins_def)
    next
      case False
      then obtain j where j: "body = Some j" by auto
      from emit_bags_trace [of url j "capture_cookies setCookieHeader w2"] obtain es where
        "trace (snd (emit_bags url j (capture_cookies setCookieHeader w2))) = trace (capture_cookies setCookieHeader w2) @ es"
        "logins es = 0" "requests es = []" by blast
      with f t Response False j show ?thesis by (auto simp add: makeRequest_retry Let_def)
    qed
  qed
qed

lemma makeRequest_retry_auth_failure:
  "net w = Response status statusText setCookieHeader body # rest \<Longrightarrow> auth_failure status \<Longrightarrow>
   fst (makeRequest url opts True w) = Inl AuthError"
  by (auto simp add: makeRequest_retry Let_def split_beta auth_failure_def)

lemma makeRequest_retry_ids:
  "userId (snd (makeRequest url opts True w)) = userId w"
  "addressId (snd (makeRequest url opts True w)) = addressId w"
  by (auto simp add: makeRequest_retry Let_def split_beta split: fetch_result.splits option.splits)

lemma makeRequest_first:
  "makeRequest url opts False w =
     (let w1 = rateLimit w;
          cookie = (if sessionCookies w1 \<noteq> [] then Some (sessionCookies w1) else None);
          (response, w2) = fetch (Request (method_of opts) (baseUrl w1 @ url) cookie) w1
      in case response of
           Rejected \<Rightarrow> (Inl NetworkError, w2)
         | Response status statusText setCookieHeader body \<Rightarrow>
             (let w3 = capture_cookies setCookieHeader w2
              in if status = 401 \<or> status = 403
                 then (case login w3 of
                         (Inl e, w4) \<Rightarrow> (Inl e, w4)
                       | (Inr u, w4) \<Rightarrow> makeRequest url opts True w4)
                 else if \<not> (200 \<le> status \<and> status \<le> 299)
                 then (Inl (HttpError status statusText), w3)
                 else (case body of
                         None \<Rightarrow> (Inl JsonError, w3)
                       | Some jsonData \<Rightarrow> emit_bags url jsonData w3)))"
  by (subst makeRequest.simps) (simp add: Let_def split_beta split: fetch_result.splits)

text \<open>When the first answer is no authentication failure, the first attempt is all
  there is: it behaves as a retry does.\<close>

lemma makeRequest_first_no_auth_failure:
  assumes "case net w of [] \<Rightarrow> True | Rejected # rs \<Rightarrow> True
           | Response status sx ck b # rs \<Rightarrow> \<not> auth_failure status"
  shows "makeRequest url opts False w = makeRequest url opts True w"
  using assms
  by (auto simp add: makeRequest_first makeRequest_retry Let_def split_beta auth_failure_def
      split: fetch_result.splits list.splits)

lemma after_first_fields:
  "\<exists>c. trace (after_first url opts w) = trace w @ [Request (method_of opts) (baseUrl w @ url) c]"
  "net (after_first url opts w) = tl (net w)"
  "baseUrl (after_first url opts w) = baseUrl w"
  "userId (after_first url opts w) = userId w"
  "addressId (after_first url opts w) = addressId w"
  by (auto simp add: after_first_def Let_def split_beta split: fetch_result.splits list.splits)

lemma makeRequest_first_auth_failure:
  assumes "net w = Response status statusText setCookieHeader body # rest" and "auth_failure status"
  shows "makeRequest url opts False w =
           (case login (after_first url opts w) of
              (Inl e, w4) \<Rightarrow> (Inl e, w4)
            | (Inr u, w4) \<Rightarrow> makeRequest url opts True w4)"
  using assms
  by (auto simp add: makeRequest_first after_first_def Let_def split_beta auth_failure_def)

lemma new_events_append [simp]: "trace w' = trace w @ es \<Longrightarrow> new_events w w' = es"
  by (simp add: new_events_def)

lemma makeRequest_no_auth_failure_events:
  assumes "case net w of [] \<Rightarrow> True | Rejected # rs \<Rightarrow> True
           | Response status sx ck b # rs \<Rightarrow> \<not> auth_failure status"
  shows "logins (new_events w (snd (makeRequest url opts False w))) = 0"
    and "requests (new_events w (snd (makeRequest url opts False w))) = [(method_of opts, baseUrl w @ url)]"
proof -
  from makeRequest_retry_events [of url opts w] obtain c es where
    t: "trace (snd (makeRequest url opts True w)) = trace w @ Request (method_of opts) (baseUrl w @ url) c # es"
    and es: "logins es = 0" "requests es = []" by blast
  from t have n: "new_events w (snd (makeRequest url opts True w)) = Request (method_of opts) (baseUrl w @ url) c # es"
    by (rule new_events_append)
  from es n show "logins (new_events w (snd (makeRequest url opts False w))) = 0"
    by (simp add: makeRequest_first_no_auth_failure [OF assms] logins_def)
  from es n show "requests (new_events w (snd (makeRequest url opts False w))) = [(method_of opts, baseUrl w @ url)]"
    by (simp add: makeRequest_first_no_auth_failure [OF assms])
qed

lemma makeRequest_login_failed:
  assumes "net w = Response status statusText setCookieHeader body # rest" and "auth_failure status"
    and "\<not> (\<exists>r rs. rest = r # rs \<and> login_accepts r)"
  shows "logins (new_events w (snd (makeRequest url opts False w))) = 1"
    and "requests (new_events w (snd (makeRequest url opts False w))) = [(method_of opts, baseUrl w @ url)]"
    and "\<exists>e. fst (makeRequest url opts False w) = Inl e \<and> e \<noteq> AuthError"
proof -
  let ?w3 = "after_first url opts w"
  obtain r w4 where l: "login ?w3 = (r, w4)" by (cases "login ?w3")
  have "net ?w3 = rest" using assms(1) by (simp add: after_first_fields)
  with assms(3) login_succeeds_iff [of ?w3] have "\<not> (\<exists>u. fst (login ?w3) = Inr u)"
    by (auto split: list.splits)
  with l obtain e where e: "r = Inl e" by (cases r) auto
  from login_failure_cases [of ?w3] l e have ne: "e \<noteq> AuthError" by auto
  from after_first_fields(1) [of url opts w] obtain c where
    t3: "trace ?w3 = trace w @ [Request (method_of opts) (baseUrl w @ url) c]" ..
  from login_trace [of ?w3] l have t4: "trace w4 = trace ?w3 @ [LoginRequest (baseUrl ?w3 @ login_path)]" by simp
  have res: "makeRequest url opts False w = (Inl e, w4)"
    by (simp add: makeRequest_first_auth_failure [OF assms(1,2)] l e)
  from t3 t4 have n: "new_events w w4 = [Request (method_of opts) (baseUrl w @ url) c, LoginRequest (baseUrl ?w3 @ login_path)]"
    by (intro new_events_append) simp
  from res n show "logins (new_events w (snd (makeRequest url opts False w))) = 1" by (simp add: logins_def)
  from res n show "requests (new_events w (snd (makeRequest url opts False w))) = [(method_of opts, baseUrl w @ url)]" by simp
  from res ne show "\<exists>e. fst (makeRequest url opts False w) = Inl e \<and> e \<noteq> AuthError" by simp
qed

lemma makeRequest_login_accepted:
  assumes "net w = Response status statusText setCookieHeader body # r # rs" and "auth_failure status"
    and "login_accepts r"
  shows "logins (new_events w (snd (makeRequest url opts False w))) = 1"
    and "requests (new_events w (snd (makeRequest url opts False w))) =
           [(method_of opts, baseUrl w @ url), (method_of opts, baseUrl w @ url)]"
    and "(\<exists>st sx ck b rs'. rs = Response st sx ck b # rs' \<and> auth_failure st) \<Longrightarrow>
           fst (makeRequest url opts False w) = Inl AuthError"
proof -
  let ?w3 = "after_first url opts w"
  obtain x w4 where l: "login ?w3 = (x, w4)" by (cases "login ?w3")
  have n3: "net ?w3 = r # rs" using assms(1) by (simp add: after_first_fields)
  with assms(3) login_succeeds_iff [of ?w3] l obtain u where u: "x = Inr u" by auto
  from after_first_fields(1) [of url opts w] obtain c where
    t3: "trace ?w3 = trace w @ [Request (method_of opts) (baseUrl w @ url) c]" ..
  from login_trace [of ?w3] l have t4: "trace w4 = trace ?w3 @ [LoginRequest (baseUrl ?w3 @ login_path)]" by simp
  from login_baseUrl [of ?w3] l have b4: "baseUrl w4 = baseUrl w" by (simp add: after_first_fields)
  from login_net [of ?w3] l n3 have n4: "net w4 = rs" by simp
  have res: "makeRequest url opts False w = makeRequest url opts True w4"
    by (simp add: makeRequest_first_auth_failure [OF assms(1,2)] l u)
  from makeRequest_retry_events [of url opts w4] b4 obtain c' es where
    t5: "trace (snd (makeRequest url opts True w4)) = trace w4 @ Request (method_of opts) (baseUrl w @ url) c' # es"
    and es: "logins es = 0" "requests es = []" by auto
  from t3 t4 t5 have n: "new_events w (snd (makeRequest url opts True w4)) =
      Request (method_of opts) (baseUrl w @ url) c # LoginRequest (baseUrl ?w3 @ login_path)
        # Request (method_of opts) (baseUrl w @ url) c' # es"
    by (intro new_events_append) simp
  from res n es show "logins (new_events w (snd (makeRequest url opts False w))) = 1" by (simp add: logins_def)
  from res n es show "requests (new_events w (snd (makeRequest url opts False w))) =
           [(method_of opts, baseUrl w @ url), (method_of opts, baseUrl w @ url)]" by simp
  assume "\<exists>st sx ck b rs'. rs = Response st sx ck b # rs' \<and> auth_failure st"
  then obtain st sx ck b rs' where "rs = Response st sx ck b # rs'" "auth_failure st" by blast
  with n4 have "fst (makeRequest url opts True w4) = Inl AuthError"
    by (intro makeRequest_retry_auth_failure) auto
  with res show "fst (makeRequest url opts False w) = Inl AuthError" by simp
qed

lemma login_success_user_id: "fst (login w) = Inr u \<Longrightarrow> truthy (userId (snd (login w)))"
  by (auto simp add: login_def Let_def split_beta split: fetch_result.splits option.splits sum.splits list.splits if_splits)

lemma makeRequest_keeps_user_id:
  assumes "fst (makeRequest url opts False w) = Inr j" and "truthy (userId w)"
  shows "truthy (userId (snd (makeRequest url opts False w)))"
proof (cases "case net w of [] \<Rightarrow> True | Rejected # rs \<Rightarrow> True
           | Response status sx ck b # rs \<Rightarrow> \<not> auth_failure status")
  case True
  with assms(2) show ?thesis
    by (simp add: makeRequest_first_no_auth_failure [OF True] makeRequest_retry_ids)
next
  case False
  then obtain status sx ck b rs where n: "net w = Response status sx ck b # rs" "auth_failure status"
    by (auto split: list.splits fetch_result.splits)
  let ?w3 = "after_first url opts w"
  obtain x w4 where l: "login ?w3 = (x, w4)" by (cases "login ?w3")
  show ?thesis
  proof (cases x)
    case (Inl e)
    with assms(1) l show ?thesis by (simp add: makeRequest_first_auth_failure [OF n])
  next
    case (Inr u)
    with login_success_user_id [of ?w3 u] l have "truthy (userId w4)" by simp
    with Inr l show ?thesis by (simp add: makeRequest_first_auth_failure [OF n] makeRequest_retry_ids)
  qed
qed

lemma makeRequest_no_login_ids:
  assumes "logins (new_events w (snd (makeRequest url opts False w))) = 0"
  shows "userId (snd (makeRequest url opts False w)) = userId w"
    and "addressId (snd (makeRequest url opts False w)) = addressId w"
proof -
  have t: "case net w of [] \<Rightarrow> True | Rejected # rs \<Rightarrow> True
           | Response status sx ck b # rs \<Rightarrow> \<not> auth_failure status"
  proof (rule ccontr)
    assume "\<not> ?thesis"
    then obtain status sx ck b rs where n: "net w = Response status sx ck b # rs" "auth_failure status"
      by (auto split: list.splits fetch_result.splits)
    have "logins (new_events w (snd (makeRequest url opts False w))) = 1"
    proof (cases "\<exists>r rs'. rs = r # rs' \<and> login_accepts r")
      case True
      then obtain r rs' where r: "rs = r # rs'" "login_accepts r" by blast
      from n r have "net w = Response status sx ck b # r # rs'" by simp
      from makeRequest_login_accepted(1) [OF this n(2) r(2)] show ?thesis .
    next
      case False
      from makeRequest_login_failed(1) [OF n False] show ?thesis .
    qed
    with assms show False by simp
  qed
  show "userId (snd (makeRequest url opts False w)) = userId w"
    by (simp add: makeRequest_first_no_auth_failure [OF t] makeRequest_retry_ids)
  show "addressId (snd (makeRequest url opts False w)) = addressId w"
    by (simp add: makeRequest_first_no_auth_failure [OF t] makeRequest_retry_ids)
qed

lemma logout_result:
  "logout w = (Inr u, w') \<Longrightarrow>
   \<exists>j w1. makeRequest ''/services/frontend-service/logout'' \<lparr> method' = Some ''POST'', payload = None \<rparr> False w = (Inr j, w1)
      \<and> w' = w1\<lparr> sessionCookies := [] \<rparr>"
  by (auto simp add: logout_def split: prod.splits sum.splits)


section \<open>The claims about the client\<close>

text \<open>
  C10. A client constructed without a country code, or with one whose upper-cased form
  is none of CZ, DE, AT, HU, RO, gets the CZ base URL and construction does not fail;
  a code that upper-cases to one of the five gets the URL of that mirror.
\<close>

theorem constructor_country_default:
  "((\<forall>c. country = Some c \<longrightarrow> toUpperCase c \<notin> {''CZ'', ''DE'', ''AT'', ''HU'', ''RO''})
      \<longrightarrow> baseUrl (constructor user pass country) = ''https://www.rohlik.cz'')
   \<and> (\<forall>c. country = Some c \<longrightarrow>
         (toUpperCase c = ''CZ'' \<longrightarrow> baseUrl (constructor user pass country) = ''https://www.rohlik.cz'')
       \<and> (toUpperCase c = ''DE'' \<longrightarrow> baseUrl (constructor user pass country) = ''https://www.knuspr.de'')
       \<and> (toUpperCase c = ''AT'' \<longrightarrow> baseUrl (constructor user pass country) = ''https://www.gurkerl.at'')
       \<and> (toUpperCase c = ''HU'' \<longrightarrow> baseUrl (constructor user pass country) = ''https://www.kifli.hu'')
       \<and> (toUpperCase c = ''RO'' \<longrightarrow> baseUrl (constructor user pass country) = ''https://www.sezamo.ro''))"
  by (cases country) (auto simp: constructor_def country_url_def COUNTRY_URLS_def)

theorem constructor_country_default_witness:
  "baseUrl (constructor ''u'' ''p'' None) = ''https://www.rohlik.cz''
   \<and> baseUrl (constructor ''u'' ''p'' (Some ''fr'')) = ''https://www.rohlik.cz''
   \<and> baseUrl (constructor ''u'' ''p'' (Some ''de'')) = ''https://www.knuspr.de''
   \<and> baseUrl (constructor ''u'' ''p'' (Some ''Hu'')) = ''https://www.kifli.hu''"
  using constructor_country_default [of None "''u''" "''p''"]
        constructor_country_default [of "Some ''fr''" "''u''" "''p''"]
        constructor_country_default [of "Some ''de''" "''u''" "''p''"]
        constructor_country_default [of "Some ''Hu''" "''u''" "''p''"]
  by (simp add: toUpperCase_def upper_char_def upper_table_def)



text \<open>Two calls, one after the other, the timer of the second ending 1 ms early by
  the clock: the dispatch times are 99 ms apart. Two calls started in the same turn
  40 ms after a request: both wait 60 ms and record the same dispatch time.\<close>

theorem rateLimit_spacing_counterexample:
  "throttle_times 2 hasty = [1700000000000, 1700000000099]
   \<and> last (throttle_times 2 hasty) - hd (throttle_times 2 hasty) < (int 2 - 1) * 100
   \<and> rateLimit_overlapped busy = [1700000000100, 1700000000100]
   \<and> last (rateLimit_overlapped busy) - hd (rateLimit_overlapped busy) < (int 2 - 1) * 100"
  by code_simp



text \<open>A refused login whose body is no JSON, and one whose body is \<^verbatim>\<open>null\<close>: the body is
  read before the status is looked at, and login fails with the error of the read,
  which is no LoginError.\<close>

theorem login_unread_body_counterexample:
  "fst (login (fresh [Response 503 ''Service Unavailable'' None None])) = Inl JsonError
   \<and> fst (login (fresh [Response 401 ''Unauthorized'' None (Some JNull)])) = Inl TypeError"
  by code_simp




text \<open>
  C5. After a logout that completes, the cookie header is empty. The user
  id and the address id are not cleared: a stored user id is still present, and when
  the logout request needed no new login both ids are what they were before.
\<close>

theorem logout_clears_cookie_header_only:
  assumes "logout w = (Inr u, w')"
  shows "sessionCookies w' = []
       \<and> (truthy (userId w) \<longrightarrow> truthy (userId w'))
       \<and> (logins (new_events w w') = 0 \<longrightarrow> userId w' = userId w \<and> addressId w' = addressId w)"
proof -
  let ?m = "makeRequest ''/services/frontend-service/logout'' \<lparr> method' = Some ''POST'', payload = None \<rparr> False w"
  from logout_result [OF assms] obtain j w1 where m: "?m = (Inr j, w1)" and w': "w' = w1\<lparr> sessionCookies := [] \<rparr>"
    by blast
  have "truthy (userId w')" if "truthy (userId w)"
  proof -
    from m have "fst ?m = Inr j" by simp
    from makeRequest_keeps_user_id [OF this that] m w' show ?thesis by simp
  qed
  moreover have "userId w' = userId w \<and> addressId w' = addressId w" if "logins (new_events w w') = 0"
  proof -
    from that w' have "logins (new_events w w1) = 0" by (simp add: new_events_def)
    with m makeRequest_no_login_ids [of w "''/services/frontend-service/logout''" "\<lparr> method' = Some ''POST'', payload = None \<rparr>"]
    show ?thesis using w' by simp
  qed
  ultimately show ?thesis using w' by simp
qed

text \<open>A logged-in client logs out: the cookie header is emptied, user 7 and address 9
  stay stored.\<close>

theorem logout_keeps_ids_counterexample:
  "fst (logout logged_in) = Inr ()
   \<and> sessionCookies logged_in = ''sid=1''
   \<and> sessionCookies (snd (logout logged_in)) = []
   \<and> userId (snd (logout logged_in)) = JNum 7
   \<and> addressId (snd (logout logged_in)) = JNum 9"
  by code_simp

theorem logout_clears_cookie_header_only_witness:
  "sessionCookies (snd (logout logged_in)) = []
   \<and> truthy (userId (snd (logout logged_in)))
   \<and> userId (snd (logout logged_in)) = userId logged_in
   \<and> addressId (snd (logout logged_in)) = addressId logged_in"
proof -
  have r: "logout logged_in = (Inr (), snd (logout logged_in))" by code_simp
  have t: "truthy (userId logged_in)" by code_simp
  have l: "logins (new_events logged_in (snd (logout logged_in))) = 0" by code_simp
  from logout_clears_cookie_header_only [OF r] t l show ?thesis by simp
qed

section \<open>Facts about the device\<close>

lemma strict_neq_primitive: "is_primitive b \<Longrightarrow> strict_neq a b = (a \<noteq> b)"
  by (cases a; cases b) auto

lemma manageDeliveryPolling_armed [simp]:
  "deliveryPollingInterval d = Some h \<Longrightarrow> manageDeliveryPolling ''delivery'' d = d"
  by (simp add: manageDeliveryPolling_def)

lemma manageDeliveryPolling_unarmed:
  "deliveryPollingInterval d = None \<Longrightarrow>
   manageDeliveryPolling ''delivery'' d =
     d\<lparr> timers := timers d @ [(next_timer d, UpdateDeliveryStatusOnly, 60 * 1000)],
        next_timer := Suc (next_timer d),
        deliveryPollingInterval := Some (next_timer d) \<rparr>"
  by (simp add: manageDeliveryPolling_def setInterval_def)

lemma manageDeliveryPolling_arm:
  assumes "timer_consistent d"
  shows "timer_consistent (manageDeliveryPolling ''delivery'' d)"
    and "armed (manageDeliveryPolling ''delivery'' d)"
    and "length (fast_timers (manageDeliveryPolling ''delivery'' d)) = 1"
proof -
  show "timer_consistent (manageDeliveryPolling ''delivery'' d)"
  proof (cases "deliveryPollingInterval d")
    case None
    with assms have "fast_timers d = []" by (simp add: timer_consistent_def)
    with None show ?thesis
      by (simp add: manageDeliveryPolling_unarmed timer_consistent_def fast_timers_def)
  next
    case (Some h)
    with assms show ?thesis by simp
  qed
  show "armed (manageDeliveryPolling ''delivery'' d)"
    by (cases "deliveryPollingInterval d") (simp_all add: manageDeliveryPolling_unarmed armed_def)
  show "length (fast_timers (manageDeliveryPolling ''delivery'' d)) = 1"
  proof (cases "deliveryPollingInterval d")
    case None
    with assms have "fast_timers d = []" by (simp add: timer_consistent_def)
    with None show ?thesis
      by (simp add: manageDeliveryPolling_unarmed fast_timers_def)
  next
    case (Some h)
    with assms have "map fst (fast_timers d) = [h]" by (simp add: timer_consistent_def)
    then have "length (fast_timers d) = 1" by (metis length_map list.size(3,4) One_nat_def add_0)
    with Some show ?thesis by simp
  qed
qed

lemma filter_handle:
  "map fst (filter P ts) = [h] \<Longrightarrow> filter (\<lambda>t. fst t \<noteq> h \<and> P t) ts = []"
proof (induction ts)
  case Nil
  then show ?case by simp
next
  case (Cons t ts)
  show ?case
  proof (cases "P t")
    case True
    with Cons.prems have h: "fst t = h" and r: "filter P ts = []" by simp_all
    from r have "filter (\<lambda>t. fst t \<noteq> h \<and> P t) ts = []"
      by (simp add: filter_empty_conv)
    with True h show ?thesis by simp
  next
    case False
    with Cons show ?thesis by simp
  qed
qed

lemma manageDeliveryPolling_other:
  "status \<noteq> ''delivery'' \<Longrightarrow>
   manageDeliveryPolling status d =
     (case deliveryPollingInterval d of
        Some h \<Rightarrow> d\<lparr> timers := filter (\<lambda>t. fst t \<noteq> h) (timers d), deliveryPollingInterval := None \<rparr>
      | None \<Rightarrow> d)"
  by (simp add: manageDeliveryPolling_def clearInterval_def split: option.splits)

lemma manageDeliveryPolling_disarm:
  assumes "timer_consistent d" and "status \<noteq> ''delivery''"
  shows "timer_consistent (manageDeliveryPolling status d)"
    and "\<not> armed (manageDeliveryPolling status d)"
    and "fast_timers (manageDeliveryPolling status d) = []"
proof -
  have f: "fast_timers (manageDeliveryPolling status d) = []"
  proof (cases "deliveryPollingInterval d")
    case None
    with assms show ?thesis
      by (simp add: manageDeliveryPolling_other timer_consistent_def)
  next
    case (Some h)
    with assms(1) have "map fst (filter (\<lambda>t. fst (snd t) = UpdateDeliveryStatusOnly) (timers d)) = [h]"
      by (simp add: timer_consistent_def fast_timers_def)
    from filter_handle [OF this] Some assms(2) show ?thesis
      by (simp add: manageDeliveryPolling_other fast_timers_def conj_commute)
  qed
  show n: "\<not> armed (manageDeliveryPolling status d)"
    using assms(2) by (simp add: manageDeliveryPolling_other armed_def split: option.splits)
  from f n show "timer_consistent (manageDeliveryPolling status d)"
    by (simp add: timer_consistent_def armed_def)
  from f show "fast_timers (manageDeliveryPolling status d) = []" .
qed














lemma announcement_list_get [simp]:
  "truthy (announcement_list anns)" "js_opt_get (announcement_list anns) ''announcements'' = JArr anns"
  by (simp_all add: announcement_list_def js_opt_get_def)

lemma client_calls_append [simp]: "client_calls (xs @ ys) = client_calls xs @ client_calls ys"
  by (induction xs rule: client_calls.induct) simp_all

lemma removals_append [simp]: "removals (xs @ ys) = removals xs @ removals ys"
  by (induction xs rule: removals.induct) simp_all

lemma new_actions_append: "journal d' = journal d @ acts \<Longrightarrow> new_actions d d' = acts"
  by (simp add: new_actions_def)

lemma removals_quiet: "client_calls acts = [] \<Longrightarrow> removals acts = []"
  by (induction acts rule: client_calls.induct) simp_all

lemma updateCapabilityValue_journal:
  "\<exists>acts. journal (updateCapabilityValue c v d) = journal d @ acts \<and> client_calls acts = []"
  by (auto simp add: updateCapabilityValue_def setCapabilityValue_def Let_def)

lemma updateCapabilityValue_fields [simp]:
  "client (updateCapabilityValue c v d) = client d"
  "timers (updateCapabilityValue c v d) = timers d"
  "deliveryPollingInterval (updateCapabilityValue c v d) = deliveryPollingInterval d"
  "next_timer (updateCapabilityValue c v d) = next_timer d"
  by (simp_all add: updateCapabilityValue_def setCapabilityValue_def Let_def)

lemma on_client_events_journal:
  "\<exists>acts. journal (on_client_events evs d) = journal d @ acts \<and> client_calls acts = []"
proof (induction evs d rule: on_client_events.induct)
  case (1 d)
  then show ?case by simp
next
  case (2 n v evs d)
  let ?d1 = "if n = ''reusable_bags'' then updateCapabilityValue ''measure_reusable_bags'' v d else d"
  have "\<exists>a1. journal ?d1 = journal d @ a1 \<and> client_calls a1 = []"
  proof (cases "n = ''reusable_bags''")
    case True
    with updateCapabilityValue_journal [of "''measure_reusable_bags''" v d] show ?thesis by simp
  next
    case False
    then have "journal ?d1 = journal d @ [] \<and> client_calls [] = []" by simp
    then show ?thesis by blast
  qed
  then obtain a1 where a1: "journal ?d1 = journal d @ a1" "client_calls a1 = []" by blast
  from 2 obtain a2 where a2: "journal (on_client_events evs ?d1) = journal ?d1 @ a2" "client_calls a2 = []"
    by blast
  from a1 a2 have "journal (on_client_events (Emit n v # evs) d) = journal d @ (a1 @ a2)
      \<and> client_calls (a1 @ a2) = []" by simp
  then show ?case by blast
next
  case (3 m u c evs d)
  then show ?case by simp
next
  case (4 u evs d)
  then show ?case by simp
qed

lemma on_client_events_fields [simp]:
  "client (on_client_events evs d) = client d"
  "timers (on_client_events evs d) = timers d"
  "deliveryPollingInterval (on_client_events evs d) = deliveryPollingInterval d"
  "next_timer (on_client_events evs d) = next_timer d"
  by (induction evs d rule: on_client_events.induct) simp_all

lemma call_client_result:
  assumes "call_client n args operation d = (r, d')"
  shows "\<exists>acts. journal d' = journal d @ ClientCall n args # acts \<and> client_calls acts = []"
    and "client d' = snd (operation (client d))"
    and "r = fst (operation (client d))"
proof -
  let ?c = "snd (operation (client d))"
  let ?d1 = "d\<lparr> client := ?c, journal := journal d @ [ClientCall n args] \<rparr>"
  from assms have d': "d' = on_client_events (new_events (client d) ?c) ?d1"
    and r: "r = fst (operation (client d))"
    by (auto simp add: call_client_def Let_def split_beta)
  from on_client_events_journal [of "new_events (client d) ?c" ?d1] d'
  show "\<exists>acts. journal d' = journal d @ ClientCall n args # acts \<and> client_calls acts = []"
    by auto
  from d' show "client d' = ?c" by simp
  from r show "r = fst (operation (client d))" .
qed

lemma call_client_timers [simp]:
  "timers (snd (call_client n args operation d)) = timers d"
  "deliveryPollingInterval (snd (call_client n args operation d)) = deliveryPollingInterval d"
  "next_timer (snd (call_client n args operation d)) = next_timer d"
  by (simp_all add: call_client_def Let_def split_beta)

lemma getCartContent_world: "snd (getCartContent w) = snd (makeRequest cart_path no_options False w)"
  by (simp add: getCartContent_def Let_def split: prod.splits sum.splits)

lemma removeFromCart_world:
  "snd (removeFromCart line w) =
     snd (makeRequest (cart_path @ ''?orderFieldId='' @ line) \<lparr> method' = Some ''DELETE'', payload = None \<rparr> False w)"
  by (simp add: removeFromCart_def split: prod.splits sum.splits)

lemma makeRequest_requests:
  "requests (new_events w (snd (makeRequest url opts False w))) = [(method_of opts, baseUrl w @ url)]
   \<or> requests (new_events w (snd (makeRequest url opts False w))) =
        [(method_of opts, baseUrl w @ url), (method_of opts, baseUrl w @ url)]"
proof (cases "case net w of [] \<Rightarrow> True | Rejected # rs \<Rightarrow> True
           | Response status sx ck b # rs \<Rightarrow> \<not> auth_failure status")
  case True
  from makeRequest_no_auth_failure_events(2) [OF True] show ?thesis by simp
next
  case False
  then obtain status sx ck b rs where n: "net w = Response status sx ck b # rs" "auth_failure status"
    by (auto split: list.splits fetch_result.splits)
  show ?thesis
  proof (cases "\<exists>r rs'. rs = r # rs' \<and> login_accepts r")
    case True
    then obtain r rs' where r: "rs = r # rs'" "login_accepts r" by blast
    from n r have "net w = Response status sx ck b # r # rs'" by simp
    from makeRequest_login_accepted(2) [OF this n(2) r(2)] show ?thesis by simp
  next
    case False
    from makeRequest_login_failed(2) [OF n False] show ?thesis by simp
  qed
qed

lemma remove_by_id_steps:
  assumes "truthy product_id"
    and "call_client ''getCartContent'' [] getCartContent d = (Inr cart, d1)"
  shows "(\<forall>item. find (matches_product product_id) (items cart) = Some item \<longrightarrow>
           (let step = call_client ''removeFromCart'' [cart_item_id item] (removeFromCart (cart_item_id item)) d1;
                d2 = snd step;
                url = baseUrl (client d1) @ cart_path @ ''?orderFieldId='' @ cart_item_id item
            in onFlowActionRemoveItemById refresh product_id d =
                 (case fst step of Inl e \<Rightarrow> (Inl e, d2) | Inr b \<Rightarrow> (Inr (), refresh d2))
             \<and> removals (new_actions d d2) = [[cart_item_id item]]
             \<and> (requests (new_events (client d1) (client d2)) = [(''DELETE'', url)]
                \<or> requests (new_events (client d1) (client d2)) = [(''DELETE'', url), (''DELETE'', url)])))
       \<and> (find (matches_product product_id) (items cart) = None \<longrightarrow>
             onFlowActionRemoveItemById refresh product_id d = (Inl NotFoundError, d1)
           \<and> removals (new_actions d d1) = []
           \<and> (requests (new_events (client d) (client d1)) = [(''GET'', baseUrl (client d) @ cart_path)]
              \<or> requests (new_events (client d) (client d1))
                   = [(''GET'', baseUrl (client d) @ cart_path), (''GET'', baseUrl (client d) @ cart_path)]))"
proof (intro conjI allI impI)
  have m: "(\<lambda>i. JStr (id' i) = product_id \<or> id' i = js_String product_id) = matches_product product_id"
    by (simp add: matches_product_def fun_eq_iff)
  note cc = call_client_result [OF assms(2)]
  from cc(1) obtain a1 where a1: "journal d1 = journal d @ ClientCall ''getCartContent'' [] # a1"
    "client_calls a1 = []" by blast
  from a1 have n1: "new_actions d d1 = ClientCall ''getCartContent'' [] # a1"
    by (intro new_actions_append) simp
  {
    assume none: "find (matches_product product_id) (items cart) = None"
    from assms none show "onFlowActionRemoveItemById refresh product_id d = (Inl NotFoundError, d1)"
      by (simp add: onFlowActionRemoveItemById_def m)
    from n1 a1(2) show "removals (new_actions d d1) = []"
      by (simp add: removals_quiet)
    from makeRequest_requests [of "client d" cart_path no_options] cc(2)
    show "requests (new_events (client d) (client d1)) = [(''GET'', baseUrl (client d) @ cart_path)]
              \<or> requests (new_events (client d) (client d1))
                   = [(''GET'', baseUrl (client d) @ cart_path), (''GET'', baseUrl (client d) @ cart_path)]"
      by (simp add: getCartContent_world method_of_def no_options_def)
  }
  fix item
  assume some: "find (matches_product product_id) (items cart) = Some item"
  let ?step = "call_client ''removeFromCart'' [cart_item_id item] (removeFromCart (cart_item_id item)) d1"
  obtain r2 d2 where s: "?step = (r2, d2)" by (cases ?step)
  note rc = call_client_result [OF s]
  have res: "onFlowActionRemoveItemById refresh product_id d =
                 (case r2 of Inl e \<Rightarrow> (Inl e, d2) | Inr b \<Rightarrow> (Inr (), refresh d2))"
    using assms some s by (simp add: onFlowActionRemoveItemById_def m split: sum.splits)
  from rc(1) obtain a2 where a2: "journal d2 = journal d1 @ ClientCall ''removeFromCart'' [cart_item_id item] # a2"
    "client_calls a2 = []" by blast
  from a1 a2 have "new_actions d d2 =
      (ClientCall ''getCartContent'' [] # a1) @ (ClientCall ''removeFromCart'' [cart_item_id item] # a2)"
    by (intro new_actions_append) simp
  with a1(2) a2(2) have rem: "removals (new_actions d d2) = [[cart_item_id item]]"
    by (simp add: removals_quiet)
  have req: "requests (new_events (client d1) (client d2))
               = [(''DELETE'', baseUrl (client d1) @ cart_path @ ''?orderFieldId='' @ cart_item_id item)]
           \<or> requests (new_events (client d1) (client d2))
               = [(''DELETE'', baseUrl (client d1) @ cart_path @ ''?orderFieldId='' @ cart_item_id item),
                  (''DELETE'', baseUrl (client d1) @ cart_path @ ''?orderFieldId='' @ cart_item_id item)]"
    using makeRequest_requests [of "client d1" "cart_path @ ''?orderFieldId='' @ cart_item_id item"
            "\<lparr> method' = Some ''DELETE'', payload = None \<rparr>"] rc(2)
    by (simp add: removeFromCart_world method_of_def)
  from res rem req s
  show "let step = ?step; d2 = snd step;
            url = baseUrl (client d1) @ cart_path @ ''?orderFieldId='' @ cart_item_id item
        in onFlowActionRemoveItemById refresh product_id d =
                 (case fst step of Inl e \<Rightarrow> (Inl e, d2) | Inr b \<Rightarrow> (Inr (), refresh d2))
             \<and> removals (new_actions d d2) = [[cart_item_id item]]
             \<and> (requests (new_events (client d1) (client d2)) = [(''DELETE'', url)]
                \<or> requests (new_events (client d1) (client d2)) = [(''DELETE'', url), (''DELETE'', url)])"
    by (simp add: Let_def split: sum.splits)
qed








lemma updateCapabilityValue_consistent [simp]:
  "timer_consistent (updateCapabilityValue c v d) = timer_consistent d"
  "armed (updateCapabilityValue c v d) = armed d"
  "fast_timers (updateCapabilityValue c v d) = fast_timers d"
  by (simp_all add: timer_consistent_def armed_def fast_timers_def)

lemma manageDeliveryPolling_step:
  assumes "timer_consistent d"
  shows "timer_consistent (manageDeliveryPolling status d)"
    and "armed (manageDeliveryPolling status d) \<longleftrightarrow> status = ''delivery''"
    and "length (fast_timers (manageDeliveryPolling status d)) = (if status = ''delivery'' then 1 else 0)"
proof -
  show "timer_consistent (manageDeliveryPolling status d)"
    using manageDeliveryPolling_arm(1) [OF assms] manageDeliveryPolling_disarm(1) [OF assms, of status]
    by (cases "status = ''delivery''") simp_all
  show "armed (manageDeliveryPolling status d) \<longleftrightarrow> status = ''delivery''"
    using manageDeliveryPolling_arm(2) [OF assms] manageDeliveryPolling_disarm(2) [OF assms, of status]
    by (cases "status = ''delivery''") simp_all
  show "length (fast_timers (manageDeliveryPolling status d)) = (if status = ''delivery'' then 1 else 0)"
    using manageDeliveryPolling_arm(3) [OF assms] manageDeliveryPolling_disarm(3) [OF assms, of status]
    by (cases "status = ''delivery''") simp_all
qed

lemma manageDeliveryPolling_sequence:
  "timer_consistent d \<Longrightarrow>
   timer_consistent (foldl (\<lambda>d s. manageDeliveryPolling s d) d ss)
   \<and> (ss \<noteq> [] \<longrightarrow> (armed (foldl (\<lambda>d s. manageDeliveryPolling s d) d ss) \<longleftrightarrow> last ss = ''delivery''))"
proof (induction ss rule: rev_induct)
  case Nil
  then show ?case by simp
next
  case (snoc s ss)
  then have "timer_consistent (foldl (\<lambda>d s. manageDeliveryPolling s d) d ss)" by simp
  from manageDeliveryPolling_step(1,2) [OF this, of s] show ?case by simp
qed

lemma device_with_consistent: "timer_consistent (device_with w)"
  by (simp add: timer_consistent_def fast_timers_def device_with_def)

lemma call_client_consistent [simp]:
  "timer_consistent (snd (call_client n args operation d)) = timer_consistent d"
  "armed (snd (call_client n args operation d)) = armed d"
  "fast_timers (snd (call_client n args operation d)) = fast_timers d"
  by (simp_all add: timer_consistent_def armed_def fast_timers_def)

lemma publish_delivery_status_step:
  assumes "timer_consistent d"
  shows "timer_consistent (publish_delivery_status st d)"
    and "armed (publish_delivery_status st d) \<longleftrightarrow> fst st = ''delivery''"
    and "length (fast_timers (publish_delivery_status st d)) = (if fst st = ''delivery'' then 1 else 0)"
proof -
  let ?d2 = "updateCapabilityValue ''measure_next_delivery_eta'' (snd st)
               (updateCapabilityValue ''string_next_delivery_status'' (JStr (fst st)) d)"
  have c2: "timer_consistent ?d2" using assms by simp
  have p: "publish_delivery_status st d = manageDeliveryPolling (fst st) ?d2"
    by (simp add: publish_delivery_status_def Let_def)
  from manageDeliveryPolling_step(1) [OF c2, of "fst st"] p
  show "timer_consistent (publish_delivery_status st d)" by simp
  from manageDeliveryPolling_step(2) [OF c2, of "fst st"] p
  show "armed (publish_delivery_status st d) \<longleftrightarrow> fst st = ''delivery''" by simp
  from manageDeliveryPolling_step(3) [OF c2, of "fst st"] p
  show "length (fast_timers (publish_delivery_status st d)) = (if fst st = ''delivery'' then 1 else 0)" by simp
qed

lemma updateDeliveryStatusOnly_cases:
  "updateDeliveryStatusOnly d = d
   \<or> (\<exists>acts. updateDeliveryStatusOnly d
         = (snd (call_client ''getDeliveryAnnouncements'' [] getDeliveryAnnouncements d))
             \<lparr> journal := acts \<rparr>)
   \<or> (\<exists>ann st. truthy (userId (client d))
        \<and> fst (call_client ''getDeliveryAnnouncements'' [] getDeliveryAnnouncements d) = Inr ann
        \<and> delivery_status ann = Inr st
        \<and> updateDeliveryStatusOnly d
            = publish_delivery_status st (snd (call_client ''getDeliveryAnnouncements'' [] getDeliveryAnnouncements d)))"
  by (cases "call_client ''getDeliveryAnnouncements'' [] getDeliveryAnnouncements d")
     (auto simp add: updateDeliveryStatusOnly_def split: sum.splits)

lemma journal_update_consistent [simp]:
  "timer_consistent (d\<lparr> journal := acts \<rparr>) = timer_consistent d"
  by (simp add: timer_consistent_def fast_timers_def)

lemma updateDeliveryStatusOnly_consistent:
  assumes "timer_consistent d"
  shows "timer_consistent (updateDeliveryStatusOnly d)"
  using updateDeliveryStatusOnly_cases [of d] assms
  by (auto simp add: publish_delivery_status_step(1))

lemma updateDeliveryStatusOnly_derived:
  assumes "timer_consistent d" and "truthy (userId (client d))"
    and "fst (call_client ''getDeliveryAnnouncements'' [] getDeliveryAnnouncements d) = Inr ann"
    and "delivery_status ann = Inr st"
  shows "armed (updateDeliveryStatusOnly d) \<longleftrightarrow> fst st = ''delivery''"
proof -
  let ?c = "call_client ''getDeliveryAnnouncements'' [] getDeliveryAnnouncements d"
  obtain r d1 where c: "?c = (r, d1)" by (cases ?c)
  with assms(3) have r: "r = Inr ann" by simp
  from c r assms(2,4) have "updateDeliveryStatusOnly d = publish_delivery_status st d1"
    by (simp add: updateDeliveryStatusOnly_def)
  moreover have "timer_consistent (snd ?c)" using assms(1) by simp
  with c have "timer_consistent d1" by simp
  ultimately show ?thesis by (simp add: publish_delivery_status_step(2))
qed

lemma general_delivery_status_derived:
  assumes "timer_consistent d"
    and "fst (call_client ''getDeliveryAnnouncements'' [] getDeliveryAnnouncements d) = Inr ann"
    and "delivery_status ann = Inr st"
  shows "armed (snd (general_delivery_status d)) \<longleftrightarrow> fst st = ''delivery''"
proof -
  let ?c = "call_client ''getDeliveryAnnouncements'' [] getDeliveryAnnouncements d"
  obtain r d1 where c: "?c = (r, d1)" by (cases ?c)
  with assms(2) have r: "r = Inr ann" by simp
  from c r assms(3) have "snd (general_delivery_status d) = publish_delivery_status st d1"
    by (simp add: general_delivery_status_def)
  moreover have "timer_consistent (snd ?c)" using assms(1) by simp
  with c have "timer_consistent d1" by simp
  ultimately show ?thesis by (simp add: publish_delivery_status_step(2))
qed

lemma general_steps_consistent:
  assumes "timer_consistent d"
  shows "timer_consistent (snd (general_cart d))"
    and "timer_consistent (snd (general_upcoming_orders d))"
    and "timer_consistent (snd (general_delivery_status d))"
    and "timer_consistent (snd (general_reusable_bags d))"
proof -
  let ?c = "call_client ''getCartContent'' [] getCartContent d"
  have "timer_consistent (snd ?c)" using assms by simp
  then show "timer_consistent (snd (general_cart d))"
    by (cases ?c) (auto simp add: general_cart_def Let_def split: sum.splits)
  let ?u = "call_client ''getUpcomingOrders'' [] getUpcomingOrders d"
  have "timer_consistent (snd ?u)" using assms by simp
  then show "timer_consistent (snd (general_upcoming_orders d))"
    by (cases ?u) (auto simp add: general_upcoming_orders_def split: sum.splits)
  let ?a = "call_client ''getDeliveryAnnouncements'' [] getDeliveryAnnouncements d"
  have "timer_consistent (snd ?a)" using assms by simp
  then show "timer_consistent (snd (general_delivery_status d))"
    by (cases ?a) (auto simp add: general_delivery_status_def publish_delivery_status_step(1) split: sum.splits)
  let ?b = "call_client ''getReusableBagsInfo'' [] getReusableBagsInfo d"
  have "timer_consistent (snd ?b)" using assms by simp
  then show "timer_consistent (snd (general_reusable_bags d))"
    by (cases ?b) (auto simp add: general_reusable_bags_def split: sum.splits option.splits)
qed

lemma and_then_consistent:
  assumes "timer_consistent (snd r)" and "\<And>d. timer_consistent d \<Longrightarrow> timer_consistent (snd (next_step d))"
  shows "timer_consistent (snd (and_then r next_step))"
  using assms by (cases r) (auto simp add: and_then_def split: sum.splits)

lemma updateGeneralData_consistent:
  assumes "timer_consistent d"
  shows "timer_consistent (snd (updateGeneralData d))"
proof (cases "truthy (userId (client d))")
  case False
  with assms show ?thesis by (simp add: updateGeneralData_def)
next
  case True
  have "timer_consistent (snd (and_then (and_then (and_then (general_cart d) general_upcoming_orders)
          general_delivery_status) general_reusable_bags))"
    by (intro and_then_consistent general_steps_consistent assms)
  with True show ?thesis by (simp add: updateGeneralData_def)
qed

section \<open>The claims about the device\<close>

text \<open>
  C6. Publishing to a capability a primitive value that the capability already holds
  performs no write and leaves the device as it is. Publishing a value that differs
  from the one held performs one write, which the host accepts, and publishing the
  same value again performs none: two publications in a row make exactly one write.
\<close>

theorem updateCapabilityValue_write_if_changed:
  assumes "is_primitive v"
  shows "(capabilities d c = v \<longrightarrow> updateCapabilityValue c v d = d)
       \<and> (capabilities d c \<noteq> v \<and> host_accepts d c v \<longrightarrow>
            (let d1 = updateCapabilityValue c v d;
                 d2 = updateCapabilityValue c v d1
             in new_actions d d1 = [SetCapability c v]
              \<and> capabilities d1 c = v
              \<and> d2 = d1
              \<and> writes c (new_actions d d2) = 1))"
  using assms
  by (auto simp add: updateCapabilityValue_def setCapabilityValue_def Let_def strict_neq_primitive
      new_actions_def writes_def)

theorem updateCapabilityValue_write_if_changed_witness:
  "new_actions (device_with logged_in)
      (updateCapabilityValue ''measure_next_delivery_eta'' (JNum 7) (device_with logged_in))
     = [SetCapability ''measure_next_delivery_eta'' (JNum 7)]
   \<and> writes ''measure_next_delivery_eta''
       (new_actions (device_with logged_in)
          (updateCapabilityValue ''measure_next_delivery_eta'' (JNum 7)
             (updateCapabilityValue ''measure_next_delivery_eta'' (JNum 7) (device_with logged_in)))) = 1
   \<and> updateCapabilityValue ''measure_next_delivery_eta'' JNull (device_with logged_in) = device_with logged_in"
  using updateCapabilityValue_write_if_changed [of "JNum 7" "device_with logged_in" "''measure_next_delivery_eta''"]
        updateCapabilityValue_write_if_changed [of JNull "device_with logged_in" "''measure_next_delivery_eta''"]
  by (simp add: Let_def device_with_def writes_def)

text \<open>
  C7. While the handle the device holds is the one fast timer running (as it is from
  the start): after \<^verbatim>\<open>manageDeliveryPolling\<close> has been given a derived shipment state,
  the fast delivery timer is armed exactly when that state is \<^verbatim>\<open>delivery\<close>. Deriving
  \<^verbatim>\<open>delivery\<close> while the timer is armed changes nothing, so no second timer is started
  and at most one fast timer exists at any time; deriving any other state while it
  is armed stops it. The same holds after any sequence of derived states, both kinds
  of tick keep the handle and the running timer in agreement, and after the step of
  a general tick or a fast tick that derived a state the timer is armed exactly when
  that state is \<^verbatim>\<open>delivery\<close>.
\<close>

theorem fast_timer_armed_exactly_in_delivery:
  assumes "timer_consistent d"
  shows "(let d' = manageDeliveryPolling status d
          in timer_consistent d'
           \<and> (armed d' \<longleftrightarrow> status = ''delivery'')
           \<and> length (fast_timers d') = (if status = ''delivery'' then 1 else 0)
           \<and> (armed d \<and> status = ''delivery'' \<longrightarrow> d' = d))
       \<and> (let d' = foldl (\<lambda>d s. manageDeliveryPolling s d) d ss
          in timer_consistent d'
           \<and> length (fast_timers d') \<le> 1
           \<and> (ss \<noteq> [] \<longrightarrow> (armed d' \<longleftrightarrow> last ss = ''delivery'')))
       \<and> timer_consistent (snd (updateGeneralData d))
       \<and> timer_consistent (updateDeliveryStatusOnly d)
       \<and> (\<forall>ann st.
             fst (call_client ''getDeliveryAnnouncements'' [] getDeliveryAnnouncements d) = Inr ann
             \<and> delivery_status ann = Inr st \<longrightarrow>
               (armed (snd (general_delivery_status d)) \<longleftrightarrow> fst st = ''delivery'')
             \<and> (truthy (userId (client d)) \<longrightarrow>
                  (armed (updateDeliveryStatusOnly d) \<longleftrightarrow> fst st = ''delivery'')))"
proof -
  have same: "manageDeliveryPolling status d = d" if "armed d \<and> status = ''delivery''"
    using that by (auto simp add: armed_def)
  let ?df = "foldl (\<lambda>d s. manageDeliveryPolling s d) d ss"
  from manageDeliveryPolling_sequence [OF assms, of ss] have cf: "timer_consistent ?df" by simp
  then have "length (map fst (fast_timers ?df)) \<le> 1"
    by (simp add: timer_consistent_def split: option.splits)
  then have lf: "length (fast_timers ?df) \<le> 1" by simp
  have one: "let d' = manageDeliveryPolling status d
          in timer_consistent d'
           \<and> (armed d' \<longleftrightarrow> status = ''delivery'')
           \<and> length (fast_timers d') = (if status = ''delivery'' then 1 else 0)
           \<and> (armed d \<and> status = ''delivery'' \<longrightarrow> d' = d)"
    using manageDeliveryPolling_step [OF assms, of status] same by (simp add: Let_def)
  have many: "let d' = ?df
          in timer_consistent d'
           \<and> length (fast_timers d') \<le> 1
           \<and> (ss \<noteq> [] \<longrightarrow> (armed d' \<longleftrightarrow> last ss = ''delivery''))"
    using manageDeliveryPolling_sequence [OF assms, of ss] lf by (simp add: Let_def)
  have ticks: "(armed (snd (general_delivery_status d)) \<longleftrightarrow> fst st = ''delivery'')
             \<and> (truthy (userId (client d)) \<longrightarrow>
                  (armed (updateDeliveryStatusOnly d) \<longleftrightarrow> fst st = ''delivery''))"
    if "fst (call_client ''getDeliveryAnnouncements'' [] getDeliveryAnnouncements d) = Inr ann
             \<and> delivery_status ann = Inr st" for ann st
    using that general_delivery_status_derived [OF assms, of ann st]
      updateDeliveryStatusOnly_derived [OF assms, of ann st] by blast
  from one many ticks updateGeneralData_consistent [OF assms] updateDeliveryStatusOnly_consistent [OF assms]
  show ?thesis by blast
qed

theorem fast_timer_armed_exactly_in_delivery_witness:
  "timers (foldl (\<lambda>d s. manageDeliveryPolling s d) (device_with logged_in) [''delivery'', ''delivery''])
     = [(0, UpdateData, 600000), (1, UpdateDeliveryStatusOnly, 60000)]
   \<and> timers (foldl (\<lambda>d s. manageDeliveryPolling s d) (device_with logged_in)
        [''delivery'', ''delivery'', ''preparing_bags''])
     = [(0, UpdateData, 600000)]
   \<and> armed (foldl (\<lambda>d s. manageDeliveryPolling s d) (device_with logged_in) [''delivery'', ''delivery''])
   \<and> \<not> armed (foldl (\<lambda>d s. manageDeliveryPolling s d) (device_with logged_in)
        [''delivery'', ''delivery'', ''preparing_bags''])
   \<and> timers (snd (updateGeneralData healthy_device))
     = [(0, UpdateData, 600000), (1, UpdateDeliveryStatusOnly, 60000)]
   \<and> armed (snd (general_delivery_status (snd (general_upcoming_orders (snd (general_cart healthy_device))))))"
proof -
  have t: "timers (foldl (\<lambda>d s. manageDeliveryPolling s d) (device_with logged_in) [''delivery'', ''delivery''])
     = [(0, UpdateData, 600000), (1, UpdateDeliveryStatusOnly, 60000)]
   \<and> timers (foldl (\<lambda>d s. manageDeliveryPolling s d) (device_with logged_in)
        [''delivery'', ''delivery'', ''preparing_bags''])
     = [(0, UpdateData, 600000)]
   \<and> timers (snd (updateGeneralData healthy_device))
     = [(0, UpdateData, 600000), (1, UpdateDeliveryStatusOnly, 60000)]" by code_simp
  let ?d2 = "snd (general_upcoming_orders (snd (general_cart healthy_device)))"
  have "timer_consistent healthy_device"
    unfolding healthy_device_def by (rule device_with_consistent)
  then have c2: "timer_consistent ?d2"
    by (intro general_steps_consistent)
  have a: "fst (call_client ''getDeliveryAnnouncements'' [] getDeliveryAnnouncements ?d2)
             = Inr (announcement_list
                 [JObj [(''icon'', JStr ''iconDeliveryCar''), (''content'', JStr ''<span>7</span>'')]])"
    by code_simp
  have s: "delivery_status (announcement_list
                 [JObj [(''icon'', JStr ''iconDeliveryCar''), (''content'', JStr ''<span>7</span>'')]])
           = Inr (''delivery'', JNum 7)" by code_simp
  note two = fast_timer_armed_exactly_in_delivery [OF device_with_consistent, of _ logged_in "[''delivery'', ''delivery'']",
      THEN conjunct2, THEN conjunct1, unfolded Let_def]
  note three = fast_timer_armed_exactly_in_delivery [OF device_with_consistent, of _ logged_in
      "[''delivery'', ''delivery'', ''preparing_bags'']", THEN conjunct2, THEN conjunct1, unfolded Let_def]
  note tick = fast_timer_armed_exactly_in_delivery [OF c2, THEN conjunct2, THEN conjunct2, THEN conjunct2,
      THEN conjunct2, rule_format, of _ "(''delivery'', JNum 7)", OF conjI, OF a s, THEN conjunct1]
  from two have "armed (foldl (\<lambda>d s. manageDeliveryPolling s d) (device_with logged_in) [''delivery'', ''delivery''])"
    by simp
  moreover from three have "\<not> armed (foldl (\<lambda>d s. manageDeliveryPolling s d) (device_with logged_in)
        [''delivery'', ''delivery'', ''preparing_bags''])"
    by simp
  moreover from tick have "armed (snd (general_delivery_status ?d2))" by simp
  ultimately show ?thesis using t by blast
qed




text \<open>
  C8. Removal by product id, given a product id and a cart that could be read: when
  a line of the cart matches the product id, \<^verbatim>\<open>removeFromCart\<close> is called exactly once,
  with the line id of the first matching line, and every request it sends is a
  \<^verbatim>\<open>DELETE\<close> for that line id; when no line matches, the action fails with
  NotFoundError, \<^verbatim>\<open>removeFromCart\<close> is not called and only the cart was requested.
\<close>

theorem onFlowActionRemoveItemById_resolves_line:
  assumes "truthy product_id"
    and "fst (call_client ''getCartContent'' [] getCartContent d) = Inr cart"
  shows "(let d1 = snd (call_client ''getCartContent'' [] getCartContent d)
          in (\<forall>item. find (matches_product product_id) (items cart) = Some item \<longrightarrow>
                (let step = call_client ''removeFromCart'' [cart_item_id item]
                              (removeFromCart (cart_item_id item)) d1;
                     d2 = snd step;
                     url = baseUrl (client d1) @ cart_path @ ''?orderFieldId='' @ cart_item_id item
                 in onFlowActionRemoveItemById refresh product_id d =
                      (case fst step of Inl e \<Rightarrow> (Inl e, d2) | Inr b \<Rightarrow> (Inr (), refresh d2))
                  \<and> removals (new_actions d d2) = [[cart_item_id item]]
                  \<and> (requests (new_events (client d1) (client d2)) = [(''DELETE'', url)]
                     \<or> requests (new_events (client d1) (client d2)) = [(''DELETE'', url), (''DELETE'', url)])))
           \<and> (find (matches_product product_id) (items cart) = None \<longrightarrow>
                 onFlowActionRemoveItemById refresh product_id d = (Inl NotFoundError, d1)
               \<and> removals (new_actions d d1) = []
               \<and> (requests (new_events (client d) (client d1)) = [(''GET'', baseUrl (client d) @ cart_path)]
                  \<or> requests (new_events (client d) (client d1))
                       = [(''GET'', baseUrl (client d) @ cart_path), (''GET'', baseUrl (client d) @ cart_path)])))"
proof -
  from assms(2) have "call_client ''getCartContent'' [] getCartContent d
      = (Inr cart, snd (call_client ''getCartContent'' [] getCartContent d))"
    by (metis prod.collapse)
  from remove_by_id_steps [OF assms(1) this, of refresh] show ?thesis
    unfolding Let_def .
qed

theorem onFlowActionRemoveItemById_resolves_line_witness:
  "fst (onFlowActionRemoveItemById (\<lambda>d. d) (JStr ''10'') removal_device) = Inr ()
   \<and> removals (new_actions removal_device
        (snd (call_client ''removeFromCart'' [''99''] (removeFromCart ''99'')
           (snd (call_client ''getCartContent'' [] getCartContent removal_device))))) = [[''99'']]
   \<and> fst (onFlowActionRemoveItemById (\<lambda>d. d) (JStr ''11'') removal_device) = Inl NotFoundError
   \<and> removals (new_actions removal_device
        (snd (call_client ''getCartContent'' [] getCartContent removal_device))) = []"
proof -
  let ?cart = "\<lparr> totalPrice = JNum 120, totalItems = 1, items = [cart_line] \<rparr>"
  have c: "fst (call_client ''getCartContent'' [] getCartContent removal_device) = Inr ?cart"
    by code_simp
  have f: "find (matches_product (JStr ''10'')) (items ?cart) = Some cart_line"
    by (simp add: matches_product_def cart_line_def)
  have n: "find (matches_product (JStr ''11'')) (items ?cart) = None"
    by (simp add: matches_product_def cart_line_def)
  have l: "cart_item_id cart_line = ''99''" by (simp add: cart_line_def)
  have s: "fst (call_client ''removeFromCart'' [''99''] (removeFromCart ''99'')
             (snd (call_client ''getCartContent'' [] getCartContent removal_device))) = Inr True"
    by code_simp
  note found = onFlowActionRemoveItemById_resolves_line [of "JStr ''10''" removal_device ?cart "\<lambda>d. d",
      unfolded Let_def, OF _ c, THEN conjunct1, rule_format, OF _ f, unfolded l]
  note absent = onFlowActionRemoveItemById_resolves_line [of "JStr ''11''" removal_device ?cart "\<lambda>d. d",
      unfolded Let_def, OF _ c, THEN conjunct2, rule_format, OF _ n]
  have t: "truthy (JStr ''10'')" "truthy (JStr ''11'')" by simp_all
  from found [OF t(1)] s have "fst (onFlowActionRemoveItemById (\<lambda>d. d) (JStr ''10'') removal_device) = Inr ()"
    by simp
  moreover from found [OF t(1)] have "removals (new_actions removal_device
        (snd (call_client ''removeFromCart'' [''99''] (removeFromCart ''99'')
           (snd (call_client ''getCartContent'' [] getCartContent removal_device))))) = [[''99'']]"
    by blast
  moreover from absent [OF t(2)] have "fst (onFlowActionRemoveItemById (\<lambda>d. d) (JStr ''11'') removal_device) = Inl NotFoundError"
    by simp
  moreover from absent [OF t(2)] have "removals (new_actions removal_device
        (snd (call_client ''getCartContent'' [] getCartContent removal_device))) = []"
    by blast
  ultimately show ?thesis by blast
qed




end
